theory Spec2Isabelle
  imports Main
begin

unbundle bit_operations_syntax

section \<open>Python values and exceptions\<close>

text \<open>
  The driver is Python 2 code: \<open>/\<close> on integers is floor division, integers are
  unbounded (\<open>int\<close>), and a \<open>str\<close> is a sequence of bytes (\<open>string\<close>).
  Every operation returns its outcome together with the state it leaves behind, so that
  what a method did before it raised stays visible: \<open>None\<close> is a normal return,
  \<open>Some e\<close> the exception \<open>e\<close>.
\<close>

datatype error = NameError | IndexError | UnboundLocalError | Unimplemented

text \<open>\<open>xs[i]\<close>: a negative index counts from the end, anything else out of range raises.\<close>

definition py_index :: "'a list \<Rightarrow> int \<Rightarrow> nat option" where
  "py_index xs i =
     (if 0 \<le> i \<and> i < int (length xs) then Some (nat i)
      else if i < 0 \<and> - int (length xs) \<le> i then Some (nat (int (length xs) + i))
      else None)"

definition py_getitem :: "'a list \<Rightarrow> int \<Rightarrow> error + 'a" where
  "py_getitem xs i = (case py_index xs i of None \<Rightarrow> Inl IndexError | Some k \<Rightarrow> Inr (xs ! k))"

definition py_setitem :: "'a list \<Rightarrow> int \<Rightarrow> 'a \<Rightarrow> error + 'a list" where
  "py_setitem xs i v = (case py_index xs i of None \<Rightarrow> Inl IndexError | Some k \<Rightarrow> Inr (xs[k := v]))"

text \<open>\<open>xs[a:b]\<close>: both bounds are clamped to the list, a slice never raises.\<close>

definition py_bound :: "'a list \<Rightarrow> int \<Rightarrow> nat" where
  "py_bound xs i = (if i < 0 then nat (int (length xs) + i) else min (length xs) (nat i))"

definition py_slice :: "'a list \<Rightarrow> int \<Rightarrow> int \<Rightarrow> 'a list" where
  "py_slice xs a b = take (py_bound xs b - py_bound xs a) (drop (py_bound xs a) xs)"

text \<open>\<open>range(a, b)\<close> over integers.\<close>

definition py_range :: "int \<Rightarrow> int \<Rightarrow> int list" where
  "py_range a b = [a..b - 1]"

definition py_ord :: "char \<Rightarrow> int" where
  "py_ord c = int (of_char c)"

text \<open>
  A \<open>for\<close> loop whose body may raise: the body runs on each element in turn, threading
  the state, and the first exception ends the loop with the state reached so far.
\<close>

fun for_each :: "('a \<Rightarrow> 's \<Rightarrow> error option \<times> 's) \<Rightarrow> 'a list \<Rightarrow> 's \<Rightarrow> error option \<times> 's" where
  "for_each body [] s = (None, s)"
| "for_each body (a # as) s =
     (case body a s of
        (None, s') \<Rightarrow> for_each body as s'
      | (Some e, s') \<Rightarrow> (Some e, s'))"

section \<open>The frame buffer: class \<open>SSD1351.Bitmap\<close>\<close>

record Bitmap =
  rows :: int
  cols :: int
  bytes_per_col :: int
  data :: "int list"

text \<open>
  \<open>Bitmap.__init__\<close> and \<open>Bitmap.draw_text\<close> read the bare name \<open>BITS_PER_PIXEL\<close>.
  Inside a method body Python resolves a bare name among the locals, then the module's
  globals, then the builtins; the attributes of the enclosing class are not in scope.
  The parameter \<open>g\<close> is what the module's globals hold under that name when the method
  runs: \<open>None\<close> when nothing is bound there, which raises \<open>NameError\<close>.
  The module \<open>ssd1351.py\<close> itself binds no such global (\<open>module_BITS_PER_PIXEL\<close>);
  the class attribute of that name is \<open>16\<close>.
\<close>

definition module_BITS_PER_PIXEL :: "int option" where
  "module_BITS_PER_PIXEL = None"

definition Bitmap_init :: "int option \<Rightarrow> int \<Rightarrow> int \<Rightarrow> error + Bitmap" where
  "Bitmap_init g cols' rows' =
     (case g of
        None \<Rightarrow> Inl NameError
      | Some BITS_PER_PIXEL \<Rightarrow>
          let bpc = rows' * (BITS_PER_PIXEL div 8)
          in Inr \<lparr>Bitmap.rows = rows', Bitmap.cols = cols', bytes_per_col = bpc,
                  data = replicate (nat (cols' * bpc)) 0\<rparr>)"

text \<open>What the constructor establishes at 16 bits per pixel.\<close>

definition Bitmap_wf :: "Bitmap \<Rightarrow> bool" where
  "Bitmap_wf bm \<longleftrightarrow>
     bytes_per_col bm = Bitmap.rows bm * 2 \<and> int (length (data bm)) = max 0 (Bitmap.cols bm * bytes_per_col bm)"

definition Bitmap_clear :: "Bitmap \<Rightarrow> Bitmap" where
  "Bitmap_clear self = self\<lparr>data := fold (\<lambda>i d. d[i := 0]) [0..<length (data self)] (data self)\<rparr>"

text \<open>The byte that \<open>draw_pixel\<close> addresses for an in-range pixel.\<close>

definition pixel_offset :: "Bitmap \<Rightarrow> int \<Rightarrow> int \<Rightarrow> int" where
  "pixel_offset self x y = (let mem_col = x; mem_row = y div 8 in mem_row + Bitmap.rows self * mem_col)"

definition Bitmap_draw_pixel :: "int \<Rightarrow> int \<Rightarrow> bool \<Rightarrow> Bitmap \<Rightarrow> error option \<times> Bitmap" where
  "Bitmap_draw_pixel x y on self =
     (if x < 0 \<or> x \<ge> Bitmap.cols self \<or> y < 0 \<or> y \<ge> Bitmap.rows self then (None, self)
      else case py_setitem (data self) (pixel_offset self x y) (if on then 0xF else 0) of
             Inl e \<Rightarrow> (Some e, self)
           | Inr d \<Rightarrow> (None, self\<lparr>data := d\<rparr>))"

definition Bitmap_clear_block :: "int \<Rightarrow> int \<Rightarrow> int \<Rightarrow> int \<Rightarrow> Bitmap \<Rightarrow> error option \<times> Bitmap" where
  "Bitmap_clear_block x0 y0 dx dy self =
     for_each (\<lambda>x. for_each (\<lambda>y. Bitmap_draw_pixel x y False) (py_range y0 (y0 + dy)))
       (py_range x0 (x0 + dx)) self"


section \<open>The variable-width font and the two text algorithms of \<open>Bitmap\<close>\<close>

text \<open>
  The font passed to \<open>text_width\<close> and \<open>draw_text\<close> is an object with these
  attributes; its content is an external asset. \<open>descriptors\<close> gives
  \<open>(width, offset)\<close> for each glyph position.
\<close>

record kerned_font =
  start_char :: char
  end_char :: char
  char_height :: int
  gap_width :: int
  space_width :: int
  descriptors :: "(int \<times> int) list"
  kerning :: "int list list"
  bitmaps :: "int list"

text \<open>
  The locals of both loops are \<open>(x, prev_char, prev_width)\<close>. \<open>prev_char\<close> is Python's
  \<open>None\<close> or a glyph position; \<open>prev_width\<close> is unbound (\<open>None\<close>) until the first
  in-range character assigns it, and reading it unbound raises.
\<close>

type_synonym text_locals = "int \<times> int option \<times> int option"

definition out_of_font :: "kerned_font \<Rightarrow> char \<Rightarrow> bool" where
  "out_of_font font c \<longleftrightarrow> py_ord c < py_ord (start_char font) \<or> py_ord c > py_ord (end_char font)"

text \<open>Lines 330 to 340, one character of \<open>text_width\<close>.\<close>

definition text_width_char :: "kerned_font \<Rightarrow> char \<Rightarrow> text_locals \<Rightarrow> error option \<times> text_locals" where
  "text_width_char font c st =
     (case st of (x, prev_char, prev_width) \<Rightarrow>
        if out_of_font font c then
          (case prev_char of
             None \<Rightarrow> (None, (x, None, prev_width))
           | Some _ \<Rightarrow>
               (case prev_width of
                  None \<Rightarrow> (Some UnboundLocalError, st)
                | Some w \<Rightarrow> (None, (x + (space_width font + w + gap_width font), None, prev_width))))
        else
          let pos = py_ord c - py_ord (start_char font)
          in (case py_getitem (descriptors font) pos of
                Inl e \<Rightarrow> (Some e, st)
              | Inr (width, offset) \<Rightarrow>
                  (case prev_char of
                     None \<Rightarrow> (None, (x, Some pos, Some width))
                   | Some pc \<Rightarrow>
                       (case py_getitem (kerning font) pc of
                          Inl e \<Rightarrow> (Some e, st)
                        | Inr krow \<Rightarrow>
                            (case py_getitem krow pos of
                               Inl e \<Rightarrow> (Some e, st)
                             | Inr k \<Rightarrow> (None, (x + (k + gap_width font), Some pos, Some width)))))))"

text \<open>After the loop: \<open>if prev_char != None: x += prev_width\<close>, then \<open>return x\<close>.\<close>

definition final_cursor :: "text_locals \<Rightarrow> error + int" where
  "final_cursor st =
     (case st of (x, prev_char, prev_width) \<Rightarrow>
        (case prev_char of
           None \<Rightarrow> Inr x
         | Some _ \<Rightarrow> (case prev_width of None \<Rightarrow> Inl UnboundLocalError | Some w \<Rightarrow> Inr (x + w))))"

definition Bitmap_text_width :: "string \<Rightarrow> kerned_font \<Rightarrow> error + int" where
  "Bitmap_text_width string font =
     (case for_each (text_width_char font) string (0, None, None) of
        (Some e, st) \<Rightarrow> Inl e
      | (None, st) \<Rightarrow> final_cursor st)"

text \<open>
  \<open>draw_text\<close>, innermost loop (\<open>for col in range(0, width)\<close>): the locals are
  \<open>(mask, p)\<close> (written \<open>msk\<close>), the state is the bitmap.
\<close>

definition glyph_col :: "kerned_font \<Rightarrow> int \<Rightarrow> int \<Rightarrow> int \<Rightarrow> (int \<times> int) \<times> Bitmap
                          \<Rightarrow> error option \<times> ((int \<times> int) \<times> Bitmap)" where
  "glyph_col font x py col st =
     (case st of ((msk, p), self) \<Rightarrow>
        let px = x + col
        in (case py_getitem (bitmaps font) p of
              Inl e \<Rightarrow> (Some e, st)
            | Inr b \<Rightarrow>
                (case (if b AND msk \<noteq> 0 then Bitmap_draw_pixel px py True self else (None, self)) of
                   (Some e, self') \<Rightarrow> (Some e, ((msk, p), self'))
                 | (None, self') \<Rightarrow>
                     (let msk' = drop_bit 1 msk
                      in if msk' = 0 then (None, ((0x80, p + 1), self'))
                         else (None, ((msk', p), self'))))))"

text \<open>\<open>for row in range(0, height)\<close>: the local that survives an iteration is \<open>offset\<close>.\<close>

definition glyph_row :: "kerned_font \<Rightarrow> int \<Rightarrow> int \<Rightarrow> int \<Rightarrow> int \<Rightarrow> int \<Rightarrow> int \<times> Bitmap
                          \<Rightarrow> error option \<times> (int \<times> Bitmap)" where
  "glyph_row font x y width bytes_per_row row st =
     (case st of (offset, self) \<Rightarrow>
        let py = y + row; msk = 0x80; p = offset
        in (case for_each (glyph_col font x py) (py_range 0 width) ((msk, p), self) of
              (Some e, (_, self')) \<Rightarrow> (Some e, (offset, self'))
            | (None, (_, self')) \<Rightarrow> (None, (offset + bytes_per_row, self'))))"

text \<open>
  Lines 364 to 377: the glyph is drawn at the cursor. \<open>bytes_per_row\<close> is computed
  from the bare name \<open>BITS_PER_PIXEL\<close>.
\<close>

definition draw_glyph :: "int option \<Rightarrow> kerned_font \<Rightarrow> int \<Rightarrow> int \<Rightarrow> int \<Rightarrow> int \<Rightarrow> Bitmap
                           \<Rightarrow> error option \<times> Bitmap" where
  "draw_glyph g font x y width offset self =
     (case g of
        None \<Rightarrow> (Some NameError, self)
      | Some BITS_PER_PIXEL \<Rightarrow>
          (let bytes_per_row = (width + 7) * (BITS_PER_PIXEL div 8)
           in (case for_each (glyph_row font x y width bytes_per_row)
                      (py_range 0 (char_height font)) (offset, self) of
                 (e, (_, self')) \<Rightarrow> (e, self'))))"

text \<open>
  Lines 352 to 377, one character of \<open>draw_text\<close>: the locals are assigned before
  the glyph is drawn, so they are already updated when drawing raises.
\<close>

definition draw_text_char :: "int option \<Rightarrow> kerned_font \<Rightarrow> int \<Rightarrow> char \<Rightarrow> text_locals \<times> Bitmap
                               \<Rightarrow> error option \<times> (text_locals \<times> Bitmap)" where
  "draw_text_char g font y c st =
     (case st of ((x, prev_char, prev_width), self) \<Rightarrow>
        if out_of_font font c then
          (case prev_char of
             None \<Rightarrow> (None, ((x, None, prev_width), self))
           | Some _ \<Rightarrow>
               (case prev_width of
                  None \<Rightarrow> (Some UnboundLocalError, st)
                | Some w \<Rightarrow>
                    (None, ((x + (space_width font + w + gap_width font), None, prev_width), self))))
        else
          let pos = py_ord c - py_ord (start_char font)
          in (case py_getitem (descriptors font) pos of
                Inl e \<Rightarrow> (Some e, st)
              | Inr (width, offset) \<Rightarrow>
                  (case prev_char of
                     None \<Rightarrow>
                       (case draw_glyph g font x y width offset self of
                          (e, self') \<Rightarrow> (e, ((x, Some pos, Some width), self')))
                   | Some pc \<Rightarrow>
                       (case py_getitem (kerning font) pc of
                          Inl e \<Rightarrow> (Some e, st)
                        | Inr krow \<Rightarrow>
                            (case py_getitem krow pos of
                               Inl e \<Rightarrow> (Some e, st)
                             | Inr k \<Rightarrow>
                                 (case draw_glyph g font (x + (k + gap_width font)) y width offset self of
                                    (e, self') \<Rightarrow>
                                      (e, ((x + (k + gap_width font), Some pos, Some width), self'))))))))"

text \<open>\<open>Bitmap.draw_text(x, y, string, font)\<close>: the outcome is the returned cursor or the exception.\<close>

definition Bitmap_draw_text :: "int option \<Rightarrow> int \<Rightarrow> int \<Rightarrow> string \<Rightarrow> kerned_font \<Rightarrow> Bitmap
                                 \<Rightarrow> (error + int) \<times> Bitmap" where
  "Bitmap_draw_text g x y string font self =
     (case for_each (draw_text_char g font y) string ((x, None, None), self) of
        (Some e, (loc, self')) \<Rightarrow> (Inl e, self')
      | (None, (loc, self')) \<Rightarrow> (final_cursor loc, self'))"

section \<open>The bus: what the SPI and GPIO capabilities are asked to do\<close>

text \<open>
  \<open>self.spi.writebytes\<close>, \<open>self.gpio.output\<close> and \<open>time.sleep\<close> are the driver's
  only effects outside its own memory. The transport is write-only and unacknowledged,
  and is taken to accept every call: each call is recorded, oldest first, in the field
  \<open>bus\<close> of the driver. \<open>time.sleep\<close> is recorded in milliseconds.
\<close>

datatype level = LOW | HIGH

datatype event =
    Sleep_ms nat
  | Output string level
  | Writebytes "int list"

text \<open>The fixed-width font \<open>gaugette.font5x8.Font5x8\<close>: a byte table and the cell size.\<close>

record Font5x8 =
  font_bytes :: "int list"
  font_rows :: int
  font_cols :: int

text \<open>
  The driver object. \<open>platform\<close> is the process-wide \<open>gaugette.platform\<close> that
  \<open>data\<close> consults; \<open>bus\<close> is the record of calls described above.
\<close>

record SSD1351 =
  cols :: int
  rows :: int
  buffer_rows :: int
  mem_bytes :: int
  dc_pin :: string
  reset_pin :: string
  font :: Font5x8
  col_offset :: int
  bitmap :: Bitmap
  flipped :: bool
  platform :: string
  bus :: "event list"

definition MEMORY_MODE_VERT :: int where "MEMORY_MODE_VERT = 0x01"
definition CMD_SETCOLUMN :: int where "CMD_SETCOLUMN = 0x15"
definition CMD_SETROW :: int where "CMD_SETROW = 0x75"
definition CMD_SETREMAP :: int where "CMD_SETREMAP = 0xA0"
definition CMD_STARTLINE :: int where "CMD_STARTLINE = 0xA1"
definition CMD_DISPLAYOFFSET :: int where "CMD_DISPLAYOFFSET = 0xA2"
definition CMD_NORMALDISPLAY :: int where "CMD_NORMALDISPLAY = 0xA6"
definition CMD_INVERTDISPLAY :: int where "CMD_INVERTDISPLAY = 0xA7"
definition CMD_FUNCTIONSELECT :: int where "CMD_FUNCTIONSELECT = 0xAB"
definition CMD_DISPLAYOFF :: int where "CMD_DISPLAYOFF = 0xAE"
definition CMD_DISPLAYON :: int where "CMD_DISPLAYON = 0xAF"
definition CMD_PRECHARGE :: int where "CMD_PRECHARGE = 0xB1"
definition CMD_CLOCKDIV :: int where "CMD_CLOCKDIV = 0xB3"
definition CMD_SETVSL :: int where "CMD_SETVSL = 0xB4"
definition CMD_SETGPIO :: int where "CMD_SETGPIO = 0xB5"
definition CMD_PRECHARGE2 :: int where "CMD_PRECHARGE2 = 0xB6"
definition CMD_VCOMH :: int where "CMD_VCOMH = 0xBE"
definition CMD_CONTRASTABC :: int where "CMD_CONTRASTABC = 0xC1"
definition CMD_CONTRASTMASTER :: int where "CMD_CONTRASTMASTER = 0xC7"
definition CMD_MUXRATIO :: int where "CMD_MUXRATIO = 0xCA"
definition CMD_COMMANDLOCK :: int where "CMD_COMMANDLOCK = 0xFD"

definition emit :: "event \<Rightarrow> SSD1351 \<Rightarrow> SSD1351" where
  "emit ev self = self\<lparr>bus := bus self @ [ev]\<rparr>"

definition SSD1351_reset :: "SSD1351 \<Rightarrow> SSD1351" where
  "SSD1351_reset self =
     fold emit [Output (reset_pin self) LOW, Sleep_ms 10, Output (reset_pin self) HIGH] self"

text \<open>\<open>command(*bytes)\<close>: one transport write; the control line is not touched.\<close>

definition SSD1351_command :: "int list \<Rightarrow> SSD1351 \<Rightarrow> SSD1351" where
  "SSD1351_command bytes = emit (Writebytes bytes)"

definition max_xfer :: "string \<Rightarrow> int" where
  "max_xfer p = (if p = ''beaglebone'' then 255 else 1024)"

text \<open>
  The \<open>while\<close> loop of \<open>data\<close>. \<open>max_xfer\<close> is fixed before the loop from the
  platform, which no iteration changes.
\<close>

function data_loop :: "int list \<Rightarrow> int \<Rightarrow> int \<Rightarrow> SSD1351 \<Rightarrow> SSD1351" where
  "data_loop bytes start remaining self =
     (if remaining > 0 then
        (let count = (if remaining \<le> max_xfer (platform self) then remaining
                      else max_xfer (platform self))
         in data_loop bytes (start + count) (remaining - count)
              (emit (Writebytes (py_slice bytes start (start + count))) self))
      else self)"
  by pat_completeness auto
termination
  by (relation "measure (\<lambda>(bytes, start, remaining, self). nat remaining)")
     (auto simp: max_xfer_def)

declare data_loop.simps [simp del]

definition SSD1351_data :: "int list \<Rightarrow> SSD1351 \<Rightarrow> SSD1351" where
  "SSD1351_data bytes self =
     (let s1 = emit (Output (dc_pin self) HIGH) self;
          s2 = data_loop bytes 0 (int (length bytes)) s1
      in emit (Output (dc_pin s2) LOW) s2)"

text \<open>
  \<open>begin\<close>: the wait, the reset and four commands come before the test of \<open>rows\<close>.
  The parameter \<open>vcc_state\<close> is not used by the body.
\<close>

definition SSD1351_begin :: "SSD1351 \<Rightarrow> error option \<times> SSD1351" where
  "SSD1351_begin self =
     (let s1 = emit (Sleep_ms 1) self;
          s2 = SSD1351_reset s1;
          s3 = fold SSD1351_command
                 [[CMD_COMMANDLOCK, 0x12], [CMD_COMMANDLOCK, 0xB1], [CMD_DISPLAYOFF],
                  [CMD_CLOCKDIV, 0xF1]] s2
      in if SSD1351.rows s3 = 128 then
           (None,
            fold SSD1351_command
              [[CMD_MUXRATIO, 127], [CMD_SETREMAP, 0x74],
               [CMD_SETCOLUMN, 0x00, 0x7F], [CMD_SETROW, 0x00, 0x7F],
               [CMD_STARTLINE, 0x00], [CMD_DISPLAYOFFSET, 0x00], [CMD_SETGPIO, 0x00],
               [CMD_FUNCTIONSELECT, 0x01],
               [CMD_PRECHARGE, 0x32], [CMD_VCOMH, 0x05], [CMD_NORMALDISPLAY],
               [CMD_CONTRASTABC, 0xC8, 0x80, 0xC8], [CMD_CONTRASTMASTER, 0x0F],
               [CMD_SETVSL, 0xA0, 0xB5, 0x55],
               [CMD_PRECHARGE2, 0x01], [CMD_DISPLAYON]] s3)
         else (Some Unimplemented, s3))"

definition SSD1351_clear_display :: "SSD1351 \<Rightarrow> SSD1351" where
  "SSD1351_clear_display self = self\<lparr>bitmap := Bitmap_clear (bitmap self)\<rparr>"

definition SSD1351_invert_display :: "SSD1351 \<Rightarrow> SSD1351" where
  "SSD1351_invert_display self = SSD1351_command [CMD_INVERTDISPLAY] self"

definition SSD1351_normal_display :: "SSD1351 \<Rightarrow> SSD1351" where
  "SSD1351_normal_display self = SSD1351_command [CMD_NORMALDISPLAY] self"

text \<open>\<open>display_block\<close>; \<open>v >> 3\<close> is \<open>drop_bit 3 v\<close>. The bitmap is only read.\<close>

definition SSD1351_display_block :: "Bitmap \<Rightarrow> int \<Rightarrow> int \<Rightarrow> int \<Rightarrow> int \<Rightarrow> SSD1351 \<Rightarrow> SSD1351" where
  "SSD1351_display_block bitmap' row col col_count col_offset' self =
     (let page_count = drop_bit 3 (Bitmap.rows bitmap');
          page_start = drop_bit 3 row;
          page_end = page_start + page_count - 1;
          col_start = col;
          col_end = col + col_count - 1;
          s1 = SSD1351_command [CMD_SETREMAP, MEMORY_MODE_VERT] self;
          s2 = SSD1351_command [CMD_SETROW, page_start, page_end] s1;
          s3 = SSD1351_command [CMD_SETCOLUMN, col_start, col_end] s2;
          start = col_offset' * page_count;
          length' = col_count * page_count
      in SSD1351_data (py_slice (data bitmap') start (start + length')) s3)"

definition SSD1351_display :: "SSD1351 \<Rightarrow> SSD1351" where
  "SSD1351_display self =
     SSD1351_display_block (bitmap self) 0 0 (SSD1351.cols self) (col_offset self) self"

definition SSD1351_display_cols :: "int \<Rightarrow> int \<Rightarrow> SSD1351 \<Rightarrow> SSD1351" where
  "SSD1351_display_cols start_col count self =
     SSD1351_display_block (bitmap self) 0 start_col count (col_offset self) self"

text \<open>The drawing methods of the driver work on \<open>self.bitmap\<close>.\<close>

definition on_bitmap :: "(Bitmap \<Rightarrow> 'r \<times> Bitmap) \<Rightarrow> SSD1351 \<Rightarrow> 'r \<times> SSD1351" where
  "on_bitmap m self = (case m (bitmap self) of (r, bm) \<Rightarrow> (r, self\<lparr>bitmap := bm\<rparr>))"

definition SSD1351_draw_pixel :: "int \<Rightarrow> int \<Rightarrow> bool \<Rightarrow> SSD1351 \<Rightarrow> error option \<times> SSD1351" where
  "SSD1351_draw_pixel x y on = on_bitmap (Bitmap_draw_pixel x y on)"

text \<open>
  \<open>draw_text\<close> with the fixed font. Innermost loop, \<open>for row in range(0, 8)\<close>: the local
  is \<open>mask\<close>; the pixel is switched on when \<open>mask & 0x1\<close> is nonzero.
\<close>

definition text_row :: "int \<Rightarrow> int \<Rightarrow> int \<Rightarrow> int \<times> SSD1351 \<Rightarrow> error option \<times> (int \<times> SSD1351)" where
  "text_row x y row st =
     (case st of (msk, self) \<Rightarrow>
        (case SSD1351_draw_pixel x (y + row) (msk AND 0x1 \<noteq> 0) self of
           (Some e, self') \<Rightarrow> (Some e, (msk, self'))
         | (None, self') \<Rightarrow> (None, (drop_bit 1 msk, self'))))"

text \<open>\<open>for col in range(0, font_cols)\<close>: the locals are \<open>(p, x)\<close>.\<close>

definition text_col :: "int \<Rightarrow> int \<Rightarrow> (int \<times> int) \<times> SSD1351 \<Rightarrow> error option \<times> ((int \<times> int) \<times> SSD1351)" where
  "text_col y col st =
     (case st of ((p, x), self) \<Rightarrow>
        (case py_getitem (font_bytes (font self)) p of
           Inl e \<Rightarrow> (Some e, st)
         | Inr msk \<Rightarrow>
             (case for_each (text_row x y) (py_range 0 8) (msk, self) of
                (Some e, (_, self')) \<Rightarrow> (Some e, ((p + 1, x), self'))
              | (None, (_, self')) \<Rightarrow> (None, ((p + 1, x + 1), self')))))"

text \<open>\<open>for c in string\<close>: the local is \<open>x\<close>.\<close>

definition text_char :: "int \<Rightarrow> char \<Rightarrow> int \<times> SSD1351 \<Rightarrow> error option \<times> (int \<times> SSD1351)" where
  "text_char y c st =
     (case st of (x, self) \<Rightarrow>
        (let p = py_ord c * font_cols (font self)
         in (case for_each (text_col y) (py_range 0 (font_cols (font self))) ((p, x), self) of
               (e, ((_, x'), self')) \<Rightarrow> (e, (x', self')))))"

definition SSD1351_draw_text :: "int \<Rightarrow> int \<Rightarrow> string \<Rightarrow> SSD1351 \<Rightarrow> error option \<times> SSD1351" where
  "SSD1351_draw_text x y string self =
     (case for_each (text_char y) string (x, self) of (e, (_, self')) \<Rightarrow> (e, self'))"

text \<open>
  \<open>draw_text2\<close>, from the innermost loop outwards: \<open>sx\<close> (local \<open>px\<close>), \<open>sy\<close>
  (local \<open>py\<close>), \<open>row\<close> (locals \<open>mask\<close>, \<open>py\<close>), \<open>col\<close> (locals \<open>p\<close>, \<open>x\<close>) and the
  characters (local \<open>x\<close>).
\<close>

definition text2_sx :: "int \<Rightarrow> int \<Rightarrow> int \<Rightarrow> int \<times> SSD1351 \<Rightarrow> error option \<times> (int \<times> SSD1351)" where
  "text2_sx py msk sx st =
     (case st of (px, self) \<Rightarrow>
        (case SSD1351_draw_pixel px py (msk AND 0x1 \<noteq> 0) self of
           (Some e, self') \<Rightarrow> (Some e, (px, self'))
         | (None, self') \<Rightarrow> (None, (px + 1, self'))))"

definition text2_sy :: "int \<Rightarrow> int \<Rightarrow> int \<Rightarrow> int \<Rightarrow> int \<times> SSD1351 \<Rightarrow> error option \<times> (int \<times> SSD1351)" where
  "text2_sy x size' msk sy st =
     (case st of (py, self) \<Rightarrow>
        (let px = x
         in (case for_each (text2_sx py msk) (py_range 0 size') (px, self) of
               (Some e, (_, self')) \<Rightarrow> (Some e, (py, self'))
             | (None, (_, self')) \<Rightarrow> (None, (py + 1, self')))))"

definition text2_row :: "int \<Rightarrow> int \<Rightarrow> int \<Rightarrow> (int \<times> int) \<times> SSD1351
                         \<Rightarrow> error option \<times> ((int \<times> int) \<times> SSD1351)" where
  "text2_row x size' row st =
     (case st of ((msk, py), self) \<Rightarrow>
        (case for_each (text2_sy x size' msk) (py_range 0 size') (py, self) of
           (Some e, (py', self')) \<Rightarrow> (Some e, ((msk, py'), self'))
         | (None, (py', self')) \<Rightarrow> (None, ((drop_bit 1 msk, py'), self'))))"

definition text2_col :: "int \<Rightarrow> int \<Rightarrow> int \<Rightarrow> (int \<times> int) \<times> SSD1351
                         \<Rightarrow> error option \<times> ((int \<times> int) \<times> SSD1351)" where
  "text2_col y size' col st =
     (case st of ((p, x), self) \<Rightarrow>
        (case py_getitem (font_bytes (font self)) p of
           Inl e \<Rightarrow> (Some e, st)
         | Inr msk \<Rightarrow>
             (let py = y
              in (case for_each (text2_row x size') (py_range 0 8) ((msk, py), self) of
                    (Some e, (_, self')) \<Rightarrow> (Some e, ((p + 1, x), self'))
                  | (None, (_, self')) \<Rightarrow> (None, ((p + 1, x + size'), self'))))))"

definition text2_char :: "int \<Rightarrow> int \<Rightarrow> int \<Rightarrow> char \<Rightarrow> int \<times> SSD1351 \<Rightarrow> error option \<times> (int \<times> SSD1351)" where
  "text2_char y size' space c st =
     (case st of (x, self) \<Rightarrow>
        (let p = py_ord c * font_cols (font self)
         in (case for_each (text2_col y size') (py_range 0 (font_cols (font self))) ((p, x), self) of
               (Some e, ((_, x'), self')) \<Rightarrow> (Some e, (x', self'))
             | (None, ((_, x'), self')) \<Rightarrow> (None, (x' + space, self')))))"

definition SSD1351_draw_text2 :: "int \<Rightarrow> int \<Rightarrow> string \<Rightarrow> int \<Rightarrow> int \<Rightarrow> SSD1351 \<Rightarrow> error option \<times> SSD1351" where
  "SSD1351_draw_text2 x y string size' space self =
     (case for_each (text2_char y size' space) string (x, self) of (e, (_, self')) \<Rightarrow> (e, self'))"

definition SSD1351_clear_block :: "int \<Rightarrow> int \<Rightarrow> int \<Rightarrow> int \<Rightarrow> SSD1351 \<Rightarrow> error option \<times> SSD1351" where
  "SSD1351_clear_block x0 y0 dx dy = on_bitmap (Bitmap_clear_block x0 y0 dx dy)"

definition SSD1351_draw_text3 :: "int option \<Rightarrow> int \<Rightarrow> int \<Rightarrow> string \<Rightarrow> kerned_font \<Rightarrow> SSD1351
                                   \<Rightarrow> (error + int) \<times> SSD1351" where
  "SSD1351_draw_text3 g x y string font' = on_bitmap (Bitmap_draw_text g x y string font')"

definition SSD1351_text_width :: "string \<Rightarrow> kerned_font \<Rightarrow> error + int" where
  "SSD1351_text_width string font' = Bitmap_text_width string font'"

section \<open>The chunking of \<open>data\<close>, as the specification words it\<close>

text \<open>
  ``Split into consecutive chunks no larger than \<open>n\<close>'': each chunk takes up to \<open>n\<close>
  of the bytes that are left. This is the reference the loop of \<open>data\<close> is compared with.
\<close>

function chunks_of :: "nat \<Rightarrow> 'a list \<Rightarrow> 'a list list" where
  "chunks_of n xs = (if n = 0 \<or> xs = [] then [] else take n xs # chunks_of n (drop n xs))"
  by pat_completeness auto
termination
  by (relation "measure (\<lambda>(n, xs). length xs)") auto

declare chunks_of.simps [simp del]

text \<open>What \<open>display_block\<close> puts on the bus, given the control pin and the platform.\<close>

definition block_traffic :: "string \<Rightarrow> string \<Rightarrow> Bitmap \<Rightarrow> int \<Rightarrow> int \<Rightarrow> int \<Rightarrow> int \<Rightarrow> event list" where
  "block_traffic dc p bm row col col_count off =
     [Writebytes [CMD_SETREMAP, MEMORY_MODE_VERT],
      Writebytes [CMD_SETROW, drop_bit 3 row, drop_bit 3 row + drop_bit 3 (Bitmap.rows bm) - 1],
      Writebytes [CMD_SETCOLUMN, col, col + col_count - 1],
      Output dc HIGH]
     @ map Writebytes
         (chunks_of (nat (max_xfer p))
            (py_slice (data bm) (off * drop_bit 3 (Bitmap.rows bm))
               (off * drop_bit 3 (Bitmap.rows bm) + col_count * drop_bit 3 (Bitmap.rows bm))))
     @ [Output dc LOW]"

section \<open>Concrete inputs\<close>

text \<open>A small frame buffer as the constructor builds it: 8 columns of 16 rows.\<close>

definition blank_8x16 :: Bitmap where
  "blank_8x16 = \<lparr>Bitmap.rows = 16, Bitmap.cols = 8, bytes_per_col = 32, data = replicate 256 0\<rparr>"

text \<open>A 128 by 128 frame buffer, and a driver that owns it, on a Raspberry Pi.\<close>

definition bitmap_128x128 :: Bitmap where
  "bitmap_128x128 =
     \<lparr>Bitmap.rows = 128, Bitmap.cols = 128, bytes_per_col = 256, data = replicate 32768 0\<rparr>"

text \<open>A frame buffer of 128 rows and only 4 columns, as \<open>Bitmap(4, 128)\<close> builds it.\<close>

definition bitmap_4x128 :: Bitmap where
  "bitmap_4x128 =
     \<lparr>Bitmap.rows = 128, Bitmap.cols = 4, bytes_per_col = 256, data = replicate 1024 0\<rparr>"

definition panel :: "int \<Rightarrow> SSD1351" where
  "panel r =
     \<lparr>SSD1351.cols = 128, SSD1351.rows = r, buffer_rows = 128, mem_bytes = 18432,
      dc_pin = ''P9_15'', reset_pin = ''P9_13'',
      font = \<lparr>font_bytes = [], font_rows = 8, font_cols = 5\<rparr>,
      col_offset = 0, bitmap = bitmap_128x128, flipped = False,
      platform = ''raspberrypi'', bus = []\<rparr>"

text \<open>
  A font of two glyphs, \<open>A\<close> (2 wide) and \<open>B\<close> (3 wide), 2 rows high, its bitmaps
  laid out with one byte per glyph row.
\<close>

definition font_AB :: kerned_font where
  "font_AB =
     \<lparr>start_char = CHR ''A'', end_char = CHR ''B'', char_height = 2, gap_width = 1,
      space_width = 3, descriptors = [(2, 0), (3, 2)], kerning = [[0, - 1], [1, 0]],
      bitmaps = [0xC0, 0xC0, 0xE0, 0xE0]\<rparr>"

section \<open>Properties of the frame buffer\<close>

lemma Bitmap_init_wf: "Bitmap_init (Some 16) c r = Inr bm \<Longrightarrow> Bitmap_wf bm"
  by (auto simp: Bitmap_init_def Bitmap_wf_def Let_def)

lemma pixel_offset_bounds:
  assumes "0 \<le> x" "x < Bitmap.cols bm" "0 \<le> y" "y < Bitmap.rows bm"
  shows "0 \<le> pixel_offset bm x y" and "pixel_offset bm x y < Bitmap.rows bm * Bitmap.cols bm"
proof -
  have r: "0 < Bitmap.rows bm" using assms by linarith
  show "0 \<le> pixel_offset bm x y"
    using assms r by (simp add: pixel_offset_def pos_imp_zdiv_nonneg_iff)
  have "y div 8 \<le> y" using assms(3) by presburger
  then have a: "y div 8 < Bitmap.rows bm" using assms(4) by linarith
  have "Bitmap.rows bm * x \<le> Bitmap.rows bm * (Bitmap.cols bm - 1)"
    using assms r by (intro mult_left_mono) auto
  then have "y div 8 + Bitmap.rows bm * x < Bitmap.rows bm + Bitmap.rows bm * (Bitmap.cols bm - 1)"
    using a by linarith
  also have "\<dots> = Bitmap.rows bm * Bitmap.cols bm" by (simp add: algebra_simps)
  finally show "pixel_offset bm x y < Bitmap.rows bm * Bitmap.cols bm"
    by (simp add: pixel_offset_def)
qed

lemma pixel_offset_index:
  assumes "Bitmap_wf bm" "0 \<le> x" "x < Bitmap.cols bm" "0 \<le> y" "y < Bitmap.rows bm"
  shows "py_index (data bm) (pixel_offset bm x y) = Some (nat (pixel_offset bm x y))"
proof -
  have b: "0 \<le> pixel_offset bm x y" "pixel_offset bm x y < Bitmap.rows bm * Bitmap.cols bm"
    using pixel_offset_bounds[OF assms(2-5)] by auto
  have "0 \<le> Bitmap.rows bm * Bitmap.cols bm" using b by linarith
  then have "Bitmap.rows bm * Bitmap.cols bm \<le> int (length (data bm))"
    using assms(1) by (simp add: Bitmap_wf_def algebra_simps)
  then show ?thesis using b by (simp add: py_index_def)
qed

lemma draw_pixel_in_range:
  assumes "Bitmap_wf bm" "0 \<le> x" "x < Bitmap.cols bm" "0 \<le> y" "y < Bitmap.rows bm"
  shows "Bitmap_draw_pixel x y on bm =
           (None, bm\<lparr>data := (data bm)[nat (pixel_offset bm x y) := (if on then 0xF else 0)]\<rparr>)"
  using assms pixel_offset_index[OF assms]
  by (simp add: Bitmap_draw_pixel_def py_setitem_def)

lemma draw_pixel_wf:
  "Bitmap_wf bm \<Longrightarrow> Bitmap_draw_pixel x y on bm = (e, bm') \<Longrightarrow> Bitmap_wf bm'"
  by (auto simp: Bitmap_draw_pixel_def py_setitem_def Bitmap_wf_def
           split: if_splits option.splits)


lemma blank_8x16_init: "Bitmap_init (Some 16) 8 16 = Inr blank_8x16"
  by (simp add: Bitmap_init_def blank_8x16_def)

lemma blank_8x16_wf: "Bitmap_wf blank_8x16"
  by (simp add: Bitmap_wf_def blank_8x16_def)

text \<open>
  C4. A pixel outside \<open>[0, cols) \<times> [0, rows)\<close> is ignored: \<open>draw_pixel\<close> returns
  normally and the bitmap, its backing store included, is the one it was given, whether
  the pixel was to be switched on or off.
\<close>

theorem draw_pixel_out_of_range_ignored:
  "x < 0 \<or> x \<ge> Bitmap.cols bm \<or> y < 0 \<or> y \<ge> Bitmap.rows bm \<Longrightarrow> Bitmap_draw_pixel x y on bm = (None, bm)"
  by (simp add: Bitmap_draw_pixel_def)

theorem draw_pixel_out_of_range_ignored_witness:
  "Bitmap_draw_pixel 8 3 True blank_8x16 = (None, blank_8x16) \<and>
   Bitmap_draw_pixel 2 (- 1) False blank_8x16 = (None, blank_8x16)"
  using draw_pixel_out_of_range_ignored [of 8 blank_8x16 3 True]
        draw_pixel_out_of_range_ignored [of 2 blank_8x16 "- 1" False]
  by (simp add: blank_8x16_def)

text \<open>
  C7. On a frame buffer whose bytes are all zero, switching an in-range pixel on and
  then off again returns normally both times and gives back the all-zero frame buffer.
\<close>

theorem draw_pixel_on_off_restores:
  assumes "Bitmap_wf bm" and "set (data bm) \<subseteq> {0}"
    and "0 \<le> x" and "x < Bitmap.cols bm" and "0 \<le> y" and "y < Bitmap.rows bm"
  shows "\<exists>bm1. Bitmap_draw_pixel x y True bm = (None, bm1) \<and>
               Bitmap_draw_pixel x y False bm1 = (None, bm)"
proof -
  let ?k = "nat (pixel_offset bm x y)"
  let ?bm1 = "bm\<lparr>data := (data bm)[?k := 0xF]\<rparr>"
  have h_on: "Bitmap_draw_pixel x y True bm = (None, ?bm1)"
    using draw_pixel_in_range[OF assms(1) assms(3-6), of True] by simp
  have wf1: "Bitmap_wf ?bm1"
    using draw_pixel_wf[OF assms(1) h_on] .
  have off1: "pixel_offset ?bm1 x y = pixel_offset bm x y"
    by (simp add: pixel_offset_def)
  have k: "?k < length (data bm)"
    using pixel_offset_index[OF assms(1) assms(3-6)]
    by (auto simp: py_index_def split: if_splits)
  then have "data bm ! ?k = 0"
    using assms(2) nth_mem by fastforce
  then have unchanged: "(data bm)[?k := 0] = data bm"
    by (simp add: list_update_same_conv k)
  have "Bitmap_draw_pixel x y False ?bm1 = (None, ?bm1\<lparr>data := (data ?bm1)[?k := 0]\<rparr>)"
    using draw_pixel_in_range[OF wf1, of x y False] assms(3-6) off1 by simp
  then have "Bitmap_draw_pixel x y False ?bm1 = (None, bm)"
    using unchanged by simp
  with h_on show ?thesis by blast
qed

theorem draw_pixel_on_off_restores_witness:
  "\<exists>bm1. Bitmap_draw_pixel 5 5 True blank_8x16 = (None, bm1) \<and>
          Bitmap_draw_pixel 5 5 False bm1 = (None, blank_8x16)"
proof -
  have z: "set (data blank_8x16) \<subseteq> {0}" by (simp add: blank_8x16_def)
  have c: "(5::int) < Bitmap.cols blank_8x16" "(5::int) < Bitmap.rows blank_8x16"
    by (simp_all add: blank_8x16_def)
  show ?thesis
    using draw_pixel_on_off_restores [OF blank_8x16_wf z _ c(1) _ c(2)] by simp
qed

text \<open>
  C9. One byte stands for the eight rows of a page: two distinct in-range rows
  \<open>y1\<close>, \<open>y2\<close> of one column with \<open>y1 div 8 = y2 div 8\<close> have the same byte offset, so
  switching \<open>(x, y1)\<close> on and then \<open>(x, y2)\<close> off leaves that byte zero, which is the
  stored value of \<open>(x, y1)\<close> as well.
\<close>

theorem same_page_pixels_share_byte:
  assumes "Bitmap_wf bm" and "0 \<le> x" and "x < Bitmap.cols bm"
    and "0 \<le> y1" and "y1 < Bitmap.rows bm" and "0 \<le> y2" and "y2 < Bitmap.rows bm"
    and "y1 \<noteq> y2" and "y1 div 8 = y2 div 8"
  shows "pixel_offset bm x y1 = pixel_offset bm x y2 \<and>
         (\<exists>bm1 bm2. Bitmap_draw_pixel x y1 True bm = (None, bm1) \<and>
                    Bitmap_draw_pixel x y2 False bm1 = (None, bm2) \<and>
                    data bm1 ! nat (pixel_offset bm x y1) = 0xF \<and>
                    data bm2 ! nat (pixel_offset bm x y1) = 0)"
proof -
  let ?k = "nat (pixel_offset bm x y1)"
  let ?bm1 = "bm\<lparr>data := (data bm)[?k := 0xF]\<rparr>"
  let ?bm2 = "?bm1\<lparr>data := (data ?bm1)[?k := 0]\<rparr>"
  have same: "pixel_offset bm x y1 = pixel_offset bm x y2"
    using assms(9) by (simp add: pixel_offset_def)
  have h_on: "Bitmap_draw_pixel x y1 True bm = (None, ?bm1)"
    using draw_pixel_in_range[OF assms(1-5), of True] by simp
  have wf1: "Bitmap_wf ?bm1"
    using draw_pixel_wf[OF assms(1) h_on] .
  have off1: "pixel_offset ?bm1 x y2 = pixel_offset bm x y1"
    using same by (simp add: pixel_offset_def)
  have off: "Bitmap_draw_pixel x y2 False ?bm1 = (None, ?bm2)"
    using draw_pixel_in_range[OF wf1, of x y2 False] assms(2,3,6,7) off1 by simp
  have k: "?k < length (data bm)"
    using pixel_offset_index[OF assms(1-5)]
    by (auto simp: py_index_def split: if_splits)
  have "data ?bm1 ! ?k = 0xF" "data ?bm2 ! ?k = 0"
    using k by simp_all
  with same h_on off show ?thesis by blast
qed

theorem same_page_pixels_share_byte_witness:
  "pixel_offset blank_8x16 3 9 = pixel_offset blank_8x16 3 14 \<and>
   (\<exists>bm1 bm2. Bitmap_draw_pixel 3 9 True blank_8x16 = (None, bm1) \<and>
              Bitmap_draw_pixel 3 14 False bm1 = (None, bm2) \<and>
              data bm1 ! nat (pixel_offset blank_8x16 3 9) = 0xF \<and>
              data bm2 ! nat (pixel_offset blank_8x16 3 9) = 0)"
proof -
  have c: "(3::int) < Bitmap.cols blank_8x16" "(9::int) < Bitmap.rows blank_8x16" "(14::int) < Bitmap.rows blank_8x16"
    by (simp_all add: blank_8x16_def)
  have d: "(9::int) \<noteq> 14" "(9::int) div 8 = 14 div 8" by simp_all
  have n: "(0::int) \<le> 3" "(0::int) \<le> 9" "(0::int) \<le> 14" by simp_all
  show ?thesis
    by (rule same_page_pixels_share_byte [OF blank_8x16_wf n(1) c(1) n(2) c(2) n(3) c(3) d])
qed

section \<open>Properties of the bus traffic\<close>

lemma py_slice_inside:
  assumes "0 \<le> a" "a \<le> b" "b \<le> int (length xs)"
  shows "py_slice xs a b = take (nat (b - a)) (drop (nat a) xs)"
  using assms by (simp add: py_slice_def py_bound_def nat_diff_distrib min_def)

lemma max_xfer_pos: "0 < max_xfer p"
  by (simp add: max_xfer_def)

lemma chunks_of_Nil: "chunks_of n [] = []"
  by (subst chunks_of.simps) simp

lemma chunks_of_Cons:
  "0 < n \<Longrightarrow> xs \<noteq> [] \<Longrightarrow> chunks_of n xs = take n xs # chunks_of n (drop n xs)"
  by (subst chunks_of.simps) simp

lemma concat_chunks_of: "0 < n \<Longrightarrow> concat (chunks_of n xs) = xs"
proof (induction n xs rule: chunks_of.induct)
  case (1 n xs)
  show ?case
  proof (cases "xs = []")
    case True
    then show ?thesis by (simp add: chunks_of_Nil)
  next
    case False
    then show ?thesis
      using "1.IH" "1.prems" by (simp add: chunks_of_Cons)
  qed
qed

lemma chunks_of_bounded: "c \<in> set (chunks_of n xs) \<Longrightarrow> c \<noteq> [] \<and> length c \<le> n"
proof (induction n xs rule: chunks_of.induct)
  case (1 n xs)
  show ?case
  proof (cases "n = 0 \<or> xs = []")
    case True
    then show ?thesis using "1.prems" by (subst (asm) chunks_of.simps) simp
  next
    case False
    then have "chunks_of n xs = take n xs # chunks_of n (drop n xs)"
      by (simp add: chunks_of_Cons)
    then have "c = take n xs \<or> c \<in> set (chunks_of n (drop n xs))"
      using "1.prems" by simp
    then show ?thesis
      using "1.IH"[OF False] False by auto
  qed
qed

lemma data_loop_step:
  "0 < remaining \<Longrightarrow>
   data_loop bytes start remaining self =
     data_loop bytes (start + min remaining (max_xfer (platform self)))
       (remaining - min remaining (max_xfer (platform self)))
       (emit (Writebytes (py_slice bytes start (start + min remaining (max_xfer (platform self))))) self)"
  by (subst data_loop.simps) (simp add: Let_def min_def)

lemma data_loop_done: "\<not> 0 < remaining \<Longrightarrow> data_loop bytes start remaining self = self"
  by (subst data_loop.simps) simp

lemma data_loop_chunks_of:
  assumes "0 \<le> start" "0 \<le> remaining" "start + remaining = int (length bytes)"
  shows "data_loop bytes start remaining self =
           self\<lparr>bus := bus self @ map Writebytes
                    (chunks_of (nat (max_xfer (platform self))) (drop (nat start) bytes))\<rparr>"
  using assms
proof (induction bytes start remaining self rule: data_loop.induct)
  case (1 bytes start remaining self)
  let ?n = "nat (max_xfer (platform self))"
  show ?case
  proof (cases "remaining > 0")
    case False
    then have "drop (nat start) bytes = []" using "1.prems" by simp
    then show ?thesis
      using data_loop_done[OF False] by (simp add: chunks_of_Nil)
  next
    case True
    define count where "count = min remaining (max_xfer (platform self))"
    define chunk where "chunk = py_slice bytes start (start + count)"
    define self' where "self' = emit (Writebytes chunk) self"
    have cpos: "0 < count" "count \<le> remaining" "count \<le> max_xfer (platform self)"
      using True max_xfer_pos[of "platform self"] by (simp_all add: count_def)
    have rest: "length (drop (nat start) bytes) = nat remaining"
      using "1.prems" by simp
    have "take (nat count) (drop (nat start) bytes) = take ?n (drop (nat start) bytes)"
      using rest cpos by (simp add: count_def min_def split: if_splits)
    then have chunk: "chunk = take ?n (drop (nat start) bytes)"
      unfolding chunk_def using py_slice_inside[of start "start + count" bytes] "1.prems" cpos
      by simp
    have "nat (start + count) = ?n + nat start \<or> drop (nat (start + count)) bytes = [] \<and> drop (?n + nat start) bytes = []"
      using "1.prems" cpos by (auto simp: count_def min_def nat_add_distrib split: if_splits)
    then have dr: "drop (nat (start + count)) bytes = drop ?n (drop (nat start) bytes)"
      by auto
    have step: "data_loop bytes start remaining self = data_loop bytes (start + count) (remaining - count) self'"
      unfolding count_def chunk_def self'_def by (rule data_loop_step[OF True])
    have cnt: "count = (if remaining \<le> max_xfer (platform self) then remaining
                      else max_xfer (platform self))"
      by (simp add: count_def min_def)
    have emitted: "emit (Writebytes (py_slice bytes start (start + count))) self = self'"
      by (simp add: self'_def chunk_def)
    have pre: "0 \<le> start + count" "0 \<le> remaining - count"
              "start + count + (remaining - count) = int (length bytes)"
      using "1.prems" cpos by simp_all
    have ih: "data_loop bytes (start + count) (remaining - count) self' =
                self'\<lparr>bus := bus self' @ map Writebytes
                    (chunks_of (nat (max_xfer (platform self'))) (drop (nat (start + count)) bytes))\<rparr>"
      using "1.IH"[OF True cnt pre] unfolding emitted .
    have p: "platform self' = platform self" by (simp add: self'_def emit_def)
    have ne: "drop (nat start) bytes \<noteq> []" using rest True by auto
    have n: "0 < ?n" using max_xfer_pos[of "platform self"] by simp
    have "chunks_of ?n (drop (nat start) bytes) = chunk # chunks_of ?n (drop (nat (start + count)) bytes)"
      unfolding chunk dr by (rule chunks_of_Cons[OF n ne])
    then show ?thesis
      unfolding step ih p by (simp add: self'_def emit_def)
  qed
qed

lemma SSD1351_data_traffic:
  "SSD1351_data bytes self =
     self\<lparr>bus := bus self @ [Output (dc_pin self) HIGH]
                 @ map Writebytes (chunks_of (nat (max_xfer (platform self))) bytes)
                 @ [Output (dc_pin self) LOW]\<rparr>"
proof -
  let ?s1 = "emit (Output (dc_pin self) HIGH) self"
  have "data_loop bytes 0 (int (length bytes)) ?s1 =
          ?s1\<lparr>bus := bus ?s1 @ map Writebytes (chunks_of (nat (max_xfer (platform ?s1))) (drop (nat 0) bytes))\<rparr>"
    by (rule data_loop_chunks_of) simp_all
  then show ?thesis
    by (simp add: SSD1351_data_def Let_def emit_def)
qed

lemma command_traffic: "SSD1351_command bs self = self\<lparr>bus := bus self @ [Writebytes bs]\<rparr>"
  by (simp add: SSD1351_command_def emit_def)

lemma display_block_traffic:
  "SSD1351_display_block bm row col n off self =
     self\<lparr>bus := bus self @ block_traffic (dc_pin self) (platform self) bm row col n off\<rparr>"
  by (simp add: SSD1351_display_block_def Let_def command_traffic SSD1351_data_traffic
        block_traffic_def CMD_SETREMAP_def MEMORY_MODE_VERT_def CMD_SETROW_def CMD_SETCOLUMN_def)


lemmas CMD_defs = MEMORY_MODE_VERT_def CMD_SETCOLUMN_def CMD_SETROW_def CMD_SETREMAP_def
  CMD_STARTLINE_def CMD_DISPLAYOFFSET_def CMD_NORMALDISPLAY_def CMD_INVERTDISPLAY_def
  CMD_FUNCTIONSELECT_def CMD_DISPLAYOFF_def CMD_DISPLAYON_def CMD_PRECHARGE_def CMD_CLOCKDIV_def
  CMD_SETVSL_def CMD_SETGPIO_def CMD_PRECHARGE2_def CMD_VCOMH_def CMD_CONTRASTABC_def
  CMD_CONTRASTMASTER_def CMD_MUXRATIO_def CMD_COMMANDLOCK_def

lemma reset_traffic:
  "SSD1351_reset self =
     self\<lparr>bus := bus self @ [Output (reset_pin self) LOW, Sleep_ms 10, Output (reset_pin self) HIGH]\<rparr>"
  by (simp add: SSD1351_reset_def emit_def)

text \<open>
  C1, as amended. When \<open>rows\<close> is not 128, \<open>begin\<close> raises the
  unsupported-configuration error after the 1 ms wait, the reset pulse and the first four
  commands (command lock \<open>0x12\<close>, command lock \<open>0xB1\<close>, display off, clock
  divider \<open>0xF1\<close>) have gone out, and nothing is sent after them: the driver is left as
  it was except for these eight bus events.
\<close>

theorem begin_unsupported_rows:
  "SSD1351.rows self \<noteq> 128 \<Longrightarrow>
   SSD1351_begin self =
     (Some Unimplemented,
      self\<lparr>bus := bus self @
         [Sleep_ms 1,
          Output (reset_pin self) LOW, Sleep_ms 10, Output (reset_pin self) HIGH,
          Writebytes [CMD_COMMANDLOCK, 0x12], Writebytes [CMD_COMMANDLOCK, 0xB1],
          Writebytes [CMD_DISPLAYOFF], Writebytes [CMD_CLOCKDIV, 0xF1]]\<rparr>)"
  by (simp add: SSD1351_begin_def Let_def reset_traffic command_traffic emit_def)

theorem begin_unsupported_rows_witness:
  "SSD1351_begin (panel 96) =
     (Some Unimplemented,
      (panel 96)\<lparr>bus :=
         [Sleep_ms 1,
          Output ''P9_13'' LOW, Sleep_ms 10, Output ''P9_13'' HIGH,
          Writebytes [0xFD, 0x12], Writebytes [0xFD, 0xB1],
          Writebytes [0xAE], Writebytes [0xB3, 0xF1]]\<rparr>)"
  using begin_unsupported_rows [of "panel 96"]
  by (simp add: panel_def CMD_defs)

text \<open>
  C1 as stated fails: with \<open>rows = 96\<close> on a quiet bus, the reset pin has been pulsed
  and four commands have been transmitted by the time the error surfaces.
\<close>

theorem begin_unsupported_rows_counterexample:
  "SSD1351.rows (panel 96) \<noteq> 128 \<and>
   fst (SSD1351_begin (panel 96)) = Some Unimplemented \<and>
   bus (panel 96) = [] \<and>
   bus (snd (SSD1351_begin (panel 96))) =
     [Sleep_ms 1,
      Output ''P9_13'' LOW, Sleep_ms 10, Output ''P9_13'' HIGH,
      Writebytes [0xFD, 0x12], Writebytes [0xFD, 0xB1],
      Writebytes [0xAE], Writebytes [0xB3, 0xF1]]"
  by (simp add: SSD1351_begin_def Let_def SSD1351_reset_def SSD1351_command_def emit_def
        panel_def CMD_defs)

text \<open>
  C3. \<open>data\<close> raises the control line, writes the bytes as consecutive non-empty
  chunks whose concatenation is the input, none longer than the platform's maximum
  transfer size, and lowers the control line after the last chunk; nothing else of the
  driver changes.
\<close>

theorem data_sent_in_chunks:
  "\<exists>chunks.
     SSD1351_data bytes self =
       self\<lparr>bus := bus self @ [Output (dc_pin self) HIGH] @ map Writebytes chunks
                   @ [Output (dc_pin self) LOW]\<rparr> \<and>
     concat chunks = bytes \<and>
     (\<forall>c \<in> set chunks. c \<noteq> [] \<and> int (length c) \<le> max_xfer (platform self))"
proof -
  let ?n = "nat (max_xfer (platform self))"
  have n: "0 < ?n" using max_xfer_pos[of "platform self"] by simp
  have "concat (chunks_of ?n bytes) = bytes"
    by (rule concat_chunks_of[OF n])
  moreover have "\<forall>c \<in> set (chunks_of ?n bytes). c \<noteq> [] \<and> int (length c) \<le> max_xfer (platform self)"
  proof
    fix c assume "c \<in> set (chunks_of ?n bytes)"
    then have "c \<noteq> [] \<and> length c \<le> ?n" by (rule chunks_of_bounded)
    then show "c \<noteq> [] \<and> int (length c) \<le> max_xfer (platform self)"
      using n by linarith
  qed
  ultimately show ?thesis
    using SSD1351_data_traffic[of bytes self] by blast
qed

lemma chunks_of_replicate_300:
  "chunks_of 255 (replicate 300 (7::int)) = [replicate 255 7, replicate 45 7]"
  by (simp add: chunks_of_Cons chunks_of_Nil)

theorem data_sent_in_chunks_witness:
  "SSD1351_data (replicate 300 7) ((panel 128)\<lparr>platform := ''beaglebone''\<rparr>) =
     (panel 128)\<lparr>platform := ''beaglebone'',
                  bus := [Output ''P9_15'' HIGH, Writebytes (replicate 255 7),
                          Writebytes (replicate 45 7), Output ''P9_15'' LOW]\<rparr>"
  using data_sent_in_chunks [of "replicate 300 7" "(panel 128)\<lparr>platform := ''beaglebone''\<rparr>"]
  by (simp add: SSD1351_data_traffic max_xfer_def chunks_of_replicate_300 panel_def)

text \<open>
  C5, as amended. For a bitmap of 128 rows, \<open>display_block(bitmap, 0, 0, 128, 0)\<close>
  sends set-remap (vertical), set-row \<open>(0, 15)\<close> and set-column \<open>(0, 127)\<close>, in this
  order, and then, as data, the slice \<open>bitmap.data[0*16 : 0*16 + 128*16]\<close>. A slice is
  cut off at the end of the list: what is sent is the first 2048 bytes of the backing
  store or all of it when it is shorter, so the length is \<open>128 * 16 = 2048\<close> exactly
  when the store holds at least 2048 bytes.
\<close>

theorem display_block_full_window:
  assumes "Bitmap.rows bm = 128"
  shows "\<exists>chunks.
           SSD1351_display_block bm 0 0 128 0 self =
             self\<lparr>bus := bus self @
                [Writebytes [CMD_SETREMAP, MEMORY_MODE_VERT],
                 Writebytes [CMD_SETROW, 0, 15],
                 Writebytes [CMD_SETCOLUMN, 0, 127],
                 Output (dc_pin self) HIGH]
                @ map Writebytes chunks @ [Output (dc_pin self) LOW]\<rparr> \<and>
           concat chunks = py_slice (data bm) (0 * 16) (0 * 16 + 128 * 16) \<and>
           py_slice (data bm) (0 * 16) (0 * 16 + 128 * 16) = take 2048 (data bm) \<and>
           length (concat chunks) = min (128 * 16) (length (data bm)) \<and>
           (2048 \<le> length (data bm) \<longrightarrow> length (concat chunks) = 128 * 16)"
proof -
  let ?n = "nat (max_xfer (platform self))"
  let ?payload = "py_slice (data bm) (0 * 16) (0 * 16 + 128 * 16)"
  have pc: "drop_bit 3 (Bitmap.rows bm) = 16"
    using assms by (simp add: drop_bit_eq_div)
  have z: "drop_bit 3 (0::int) = 0" by simp
  have n: "0 < ?n" using max_xfer_pos[of "platform self"] by simp
  have sl: "?payload = take 2048 (data bm)"
    by (simp add: py_slice_def py_bound_def min_def)
  have len: "2048 \<le> length (data bm) \<longrightarrow> length ?payload = 128 * 16"
    unfolding sl by simp
  have len': "length ?payload = min (128 * 16) (length (data bm))"
    unfolding sl by (simp add: min_def)
  have cc: "concat (chunks_of ?n ?payload) = ?payload"
    by (rule concat_chunks_of[OF n])
  have "SSD1351_display_block bm 0 0 128 0 self =
          self\<lparr>bus := bus self @
                [Writebytes [CMD_SETREMAP, MEMORY_MODE_VERT],
                 Writebytes [CMD_SETROW, 0, 15],
                 Writebytes [CMD_SETCOLUMN, 0, 127],
                 Output (dc_pin self) HIGH]
                @ map Writebytes (chunks_of ?n ?payload) @ [Output (dc_pin self) LOW]\<rparr>"
    unfolding display_block_traffic block_traffic_def pc z by simp
  with cc sl len len' show ?thesis by metis
qed

lemma chunks_of_replicate_2048:
  "chunks_of 1024 (replicate 2048 (0::int)) = [replicate 1024 0, replicate 1024 0]"
  by (simp add: chunks_of_Cons chunks_of_Nil)

theorem display_block_full_window_witness:
  "2048 \<le> length (data bitmap_128x128) \<and>
   SSD1351_display_block bitmap_128x128 0 0 128 0 (panel 128) =
     (panel 128)\<lparr>bus :=
        [Writebytes [0xA0, 0x01], Writebytes [0x75, 0, 15], Writebytes [0x15, 0, 127],
         Output ''P9_15'' HIGH,
         Writebytes (replicate 1024 0), Writebytes (replicate 1024 0),
         Output ''P9_15'' LOW]\<rparr>"
proof -
  have r: "Bitmap.rows bitmap_128x128 = 128" and l: "2048 \<le> length (data bitmap_128x128)"
    by (simp_all add: bitmap_128x128_def)
  have sl: "py_slice (data bitmap_128x128) 0 2048 = replicate 2048 0"
    by (simp add: py_slice_def py_bound_def bitmap_128x128_def)
  have mx: "nat (max_xfer (platform (panel 128))) = 1024"
    by (simp add: max_xfer_def panel_def)
  have pc: "drop_bit 3 (128::int) = 16" by (simp add: drop_bit_eq_div)
  show ?thesis
    using display_block_full_window [OF r, of "panel 128"] l
    unfolding display_block_traffic block_traffic_def r pc
    by (simp add: sl mx chunks_of_replicate_2048 CMD_defs) (simp add: panel_def)
qed

text \<open>
  C5 as stated fails: \<open>Bitmap(4, 128)\<close> has 128 rows and a backing store of 1024
  bytes, and \<open>display_block(bitmap, 0, 0, 128, 0)\<close> then sends a payload of 1024 bytes,
  not 2048.
\<close>

lemma chunks_of_replicate_1024:
  "chunks_of 1024 (replicate 1024 (0::int)) = [replicate 1024 0]"
  by (simp add: chunks_of_Cons chunks_of_Nil)

theorem display_block_short_store_counterexample:
  "Bitmap_init (Some 16) 4 128 = Inr bitmap_4x128 \<and>
   Bitmap.rows bitmap_4x128 = 128 \<and>
   py_slice (data bitmap_4x128) (0 * 16) (0 * 16 + 128 * 16) = replicate 1024 0 \<and>
   length (py_slice (data bitmap_4x128) (0 * 16) (0 * 16 + 128 * 16)) \<noteq> 128 * 16 \<and>
   SSD1351_display_block bitmap_4x128 0 0 128 0 (panel 128) =
     (panel 128)\<lparr>bus :=
        [Writebytes [0xA0, 0x01], Writebytes [0x75, 0, 15], Writebytes [0x15, 0, 127],
         Output ''P9_15'' HIGH,
         Writebytes (replicate 1024 0),
         Output ''P9_15'' LOW]\<rparr>"
proof -
  have i: "Bitmap_init (Some 16) 4 128 = Inr bitmap_4x128"
    by (simp add: Bitmap_init_def bitmap_4x128_def)
  have r: "Bitmap.rows bitmap_4x128 = 128"
    by (simp add: bitmap_4x128_def)
  have sl: "py_slice (data bitmap_4x128) 0 2048 = replicate 1024 0"
    by (simp add: py_slice_def py_bound_def bitmap_4x128_def)
  have mx: "nat (max_xfer (platform (panel 128))) = 1024"
    by (simp add: max_xfer_def panel_def)
  have pc: "drop_bit 3 (128::int) = 16" by (simp add: drop_bit_eq_div)
  have d: "SSD1351_display_block bitmap_4x128 0 0 128 0 (panel 128) =
     (panel 128)\<lparr>bus :=
        [Writebytes [0xA0, 0x01], Writebytes [0x75, 0, 15], Writebytes [0x15, 0, 127],
         Output ''P9_15'' HIGH,
         Writebytes (replicate 1024 0),
         Output ''P9_15'' LOW]\<rparr>"
    unfolding display_block_traffic block_traffic_def r pc
    by (simp add: sl mx chunks_of_replicate_1024 CMD_defs) (simp add: panel_def)
  from i r sl d show ?thesis by simp
qed

text \<open>
  C10. \<open>display\<close>, \<open>display_cols\<close> and \<open>display_block\<close> leave the driver's
  bitmap as it was; they only add to the bus, and a second identical call adds the same
  traffic again.
\<close>

theorem display_keeps_bitmap:
  "bitmap (SSD1351_display self) = bitmap self \<and>
   bitmap (SSD1351_display_cols start_col count self) = bitmap self \<and>
   bitmap (SSD1351_display_block bm row col n off self) = bitmap self \<and>
   (\<exists>out. SSD1351_display self = self\<lparr>bus := bus self @ out\<rparr> \<and>
          SSD1351_display (SSD1351_display self) = self\<lparr>bus := bus self @ out @ out\<rparr>) \<and>
   (\<exists>out. SSD1351_display_cols start_col count self = self\<lparr>bus := bus self @ out\<rparr> \<and>
          SSD1351_display_cols start_col count (SSD1351_display_cols start_col count self) =
            self\<lparr>bus := bus self @ out @ out\<rparr>) \<and>
   (\<exists>out. SSD1351_display_block bm row col n off self = self\<lparr>bus := bus self @ out\<rparr> \<and>
          SSD1351_display_block bm row col n off (SSD1351_display_block bm row col n off self) =
            self\<lparr>bus := bus self @ out @ out\<rparr>)"
proof -
  let ?t = "\<lambda>b r c k f. block_traffic (dc_pin self) (platform self) b r c k f"
  have once: "SSD1351_display_block b r c k f self = self\<lparr>bus := bus self @ ?t b r c k f\<rparr>"
    for b r c k f
    by (rule display_block_traffic)
  have twice: "SSD1351_display_block b r c k f (self\<lparr>bus := bus self @ ?t b r c k f\<rparr>) =
                 self\<lparr>bus := bus self @ ?t b r c k f @ ?t b r c k f\<rparr>" for b r c k f
    by (simp add: display_block_traffic)
  have a: "bitmap (SSD1351_display self) = bitmap self"
    by (simp add: SSD1351_display_def once)
  have b: "bitmap (SSD1351_display_cols start_col count self) = bitmap self"
    by (simp add: SSD1351_display_cols_def once)
  have c: "bitmap (SSD1351_display_block bm row col n off self) = bitmap self"
    by (simp add: once)
  have d: "\<exists>out. SSD1351_display self = self\<lparr>bus := bus self @ out\<rparr> \<and>
          SSD1351_display (SSD1351_display self) = self\<lparr>bus := bus self @ out @ out\<rparr>"
    by (rule exI[of _ "?t (bitmap self) 0 0 (SSD1351.cols self) (col_offset self)"])
       (simp add: SSD1351_display_def once twice)
  have e: "\<exists>out. SSD1351_display_cols start_col count self = self\<lparr>bus := bus self @ out\<rparr> \<and>
          SSD1351_display_cols start_col count (SSD1351_display_cols start_col count self) =
            self\<lparr>bus := bus self @ out @ out\<rparr>"
    by (rule exI[of _ "?t (bitmap self) 0 start_col count (col_offset self)"])
       (simp add: SSD1351_display_cols_def once twice)
  have f: "\<exists>out. SSD1351_display_block bm row col n off self = self\<lparr>bus := bus self @ out\<rparr> \<and>
          SSD1351_display_block bm row col n off (SSD1351_display_block bm row col n off self) =
            self\<lparr>bus := bus self @ out @ out\<rparr>"
    by (rule exI[of _ "?t bm row col n off"]) (simp add: once twice)
  from a b c d e f show ?thesis by (intro conjI)
qed

section \<open>Loops\<close>

lemma for_each_invariant:
  assumes "\<And>a s e s'. body a s = (e, s') \<Longrightarrow> P s \<Longrightarrow> P s'"
    and "P s" and "for_each body as s = (e, s')"
  shows "P s'"
  using assms(2,3)
proof (induction as arbitrary: s)
  case Nil
  then show ?case by simp
next
  case (Cons a as)
  obtain e1 s1 where b: "body a s = (e1, s1)" by (cases "body a s")
  have p1: "P s1" using assms(1)[OF b Cons.prems(1)] .
  show ?case
  proof (cases e1)
    case None
    then have "for_each body as s1 = (e, s')" using Cons.prems(2) b by simp
    then show ?thesis using Cons.IH[OF p1] by simp
  next
    case (Some err)
    then have "s' = s1" using Cons.prems(2) b by simp
    then show ?thesis using p1 by simp
  qed
qed

section \<open>The drawing methods and the bus\<close>

lemma on_bitmap_bus: "on_bitmap m self = (r, self') \<Longrightarrow> bus self' = bus self"
  by (auto simp: on_bitmap_def split: prod.splits)

lemma draw_pixel_bus: "SSD1351_draw_pixel x y on self = (e, self') \<Longrightarrow> bus self' = bus self"
  unfolding SSD1351_draw_pixel_def by (rule on_bitmap_bus)

lemma text_row_bus:
  "text_row x y row st = (e, st') \<Longrightarrow> bus (snd st) = b \<Longrightarrow> bus (snd st') = b"
  by (auto simp: text_row_def split: prod.splits option.splits dest: draw_pixel_bus)

lemma text_col_bus:
  assumes "text_col y col st = (e, st')" and "bus (snd st) = b"
  shows "bus (snd st') = b"
proof -
  obtain p x self where st: "st = ((p, x), self)" by (metis prod.exhaust)
  show ?thesis
  proof (cases "py_getitem (font_bytes (font self)) p")
    case (Inl err)
    then show ?thesis using assms st by (simp add: text_col_def)
  next
    case (Inr msk)
    obtain e1 m1 s1 where l: "for_each (text_row x y) (py_range 0 8) (msk, self) = (e1, (m1, s1))"
      by (metis prod.exhaust)
    have "bus (snd (m1, s1)) = b"
      by (rule for_each_invariant[where P = "\<lambda>s. bus (snd s) = b", OF _ _ l])
         (use assms(2) st in \<open>auto elim: text_row_bus\<close>)
    then show ?thesis
      using assms(1) st Inr l by (auto simp: text_col_def split: option.splits)
  qed
qed

lemma text_char_bus:
  assumes "text_char y c st = (e, st')" and "bus (snd st) = b"
  shows "bus (snd st') = b"
proof -
  obtain x self where st: "st = (x, self)" by (metis prod.exhaust)
  obtain e1 p1 x1 s1 where l:
    "for_each (text_col y) (py_range 0 (font_cols (font self))) ((py_ord c * font_cols (font self), x), self)
       = (e1, ((p1, x1), s1))"
    by (metis prod.exhaust)
  have "bus (snd ((p1, x1), s1)) = b"
    by (rule for_each_invariant[where P = "\<lambda>s. bus (snd s) = b", OF _ _ l])
       (use assms(2) st in \<open>auto elim: text_col_bus\<close>)
  then show ?thesis
    using assms(1) st l by (auto simp: text_char_def Let_def)
qed

lemma draw_text_bus: "bus (snd (SSD1351_draw_text x y string self)) = bus self"
proof -
  obtain e1 x1 s1 where l: "for_each (text_char y) string (x, self) = (e1, (x1, s1))"
    by (metis prod.exhaust)
  have "bus (snd (x1, s1)) = bus self"
    by (rule for_each_invariant[where P = "\<lambda>s. bus (snd s) = bus self", OF _ _ l])
       (auto elim: text_char_bus)
  then show ?thesis using l by (simp add: SSD1351_draw_text_def)
qed


lemma text2_sx_bus:
  "text2_sx py msk sx st = (e, st') \<Longrightarrow> bus (snd st) = b \<Longrightarrow> bus (snd st') = b"
  by (auto simp: text2_sx_def split: prod.splits option.splits dest: draw_pixel_bus)

lemma text2_sy_bus:
  assumes "text2_sy x size' msk sy st = (e, st')" and "bus (snd st) = b"
  shows "bus (snd st') = b"
proof -
  obtain py self where st: "st = (py, self)" by (metis prod.exhaust)
  obtain e1 px1 s1 where l: "for_each (text2_sx py msk) (py_range 0 size') (x, self) = (e1, (px1, s1))"
    by (metis prod.exhaust)
  have "bus (snd (px1, s1)) = b"
    by (rule for_each_invariant[where P = "\<lambda>s. bus (snd s) = b", OF _ _ l])
       (use assms(2) st in \<open>auto elim: text2_sx_bus\<close>)
  then show ?thesis
    using assms(1) st l by (auto simp: text2_sy_def Let_def split: option.splits)
qed

lemma text2_row_bus:
  assumes "text2_row x size' row st = (e, st')" and "bus (snd st) = b"
  shows "bus (snd st') = b"
proof -
  obtain msk py self where st: "st = ((msk, py), self)" by (metis prod.exhaust)
  obtain e1 py1 s1 where l: "for_each (text2_sy x size' msk) (py_range 0 size') (py, self) = (e1, (py1, s1))"
    by (metis prod.exhaust)
  have "bus (snd (py1, s1)) = b"
    by (rule for_each_invariant[where P = "\<lambda>s. bus (snd s) = b", OF _ _ l])
       (use assms(2) st in \<open>auto elim: text2_sy_bus\<close>)
  then show ?thesis
    using assms(1) st l by (auto simp: text2_row_def split: option.splits)
qed

lemma text2_col_bus:
  assumes "text2_col y size' col st = (e, st')" and "bus (snd st) = b"
  shows "bus (snd st') = b"
proof -
  obtain p x self where st: "st = ((p, x), self)" by (metis prod.exhaust)
  show ?thesis
  proof (cases "py_getitem (font_bytes (font self)) p")
    case (Inl err)
    then show ?thesis using assms st by (simp add: text2_col_def)
  next
    case (Inr msk)
    obtain e1 m1 s1 where l: "for_each (text2_row x size') (py_range 0 8) ((msk, y), self) = (e1, (m1, s1))"
      by (metis prod.exhaust)
    have "bus (snd (m1, s1)) = b"
      by (rule for_each_invariant[where P = "\<lambda>s. bus (snd s) = b", OF _ _ l])
         (use assms(2) st in \<open>auto elim: text2_row_bus\<close>)
    then show ?thesis
      using assms(1) st Inr l by (auto simp: text2_col_def Let_def split: option.splits)
  qed
qed

lemma text2_char_bus:
  assumes "text2_char y size' space c st = (e, st')" and "bus (snd st) = b"
  shows "bus (snd st') = b"
proof -
  obtain x self where st: "st = (x, self)" by (metis prod.exhaust)
  obtain e1 p1 x1 s1 where l:
    "for_each (text2_col y size') (py_range 0 (font_cols (font self)))
       ((py_ord c * font_cols (font self), x), self) = (e1, ((p1, x1), s1))"
    by (metis prod.exhaust)
  have "bus (snd ((p1, x1), s1)) = b"
    by (rule for_each_invariant[where P = "\<lambda>s. bus (snd s) = b", OF _ _ l])
       (use assms(2) st in \<open>auto elim: text2_col_bus\<close>)
  then show ?thesis
    using assms(1) st l by (auto simp: text2_char_def Let_def split: option.splits)
qed

lemma draw_text2_bus: "bus (snd (SSD1351_draw_text2 x y string size' space self)) = bus self"
proof -
  obtain e1 x1 s1 where l: "for_each (text2_char y size' space) string (x, self) = (e1, (x1, s1))"
    by (metis prod.exhaust)
  have "bus (snd (x1, s1)) = bus self"
    by (rule for_each_invariant[where P = "\<lambda>s. bus (snd s) = bus self", OF _ _ l])
       (auto elim: text2_char_bus)
  then show ?thesis using l by (simp add: SSD1351_draw_text2_def)
qed

lemma on_bitmap_bus_snd: "bus (snd (on_bitmap m self)) = bus self"
  by (cases "on_bitmap m self") (auto dest: on_bitmap_bus)

lemma begin_extends_bus:
  "\<exists>out. out \<noteq> [] \<and> bus (snd (SSD1351_begin self)) = bus self @ out"
  by (cases "SSD1351.rows self = 128")
     (simp_all add: SSD1351_begin_def Let_def SSD1351_reset_def command_traffic emit_def)

lemma block_traffic_nonempty: "block_traffic dc p bm row col n off \<noteq> []"
  by (simp add: block_traffic_def)

text \<open>
  C8. None of \<open>draw_pixel\<close>, \<open>draw_text\<close>, \<open>draw_text2\<close>, \<open>draw_text3\<close>,
  \<open>clear_block\<close> and \<open>clear_display\<close> adds anything to the bus, whether it returns or
  raises: no byte is written and no pin is set. Each of \<open>display\<close>, \<open>display_cols\<close>,
  \<open>display_block\<close>, \<open>begin\<close>, \<open>reset\<close>, \<open>invert_display\<close> and
  \<open>normal_display\<close> does add traffic.
\<close>

theorem drawing_is_silent:
  "bus (snd (SSD1351_draw_pixel x y on self)) = bus self \<and>
   bus (snd (SSD1351_draw_text x y string self)) = bus self \<and>
   bus (snd (SSD1351_draw_text2 x y string size' space self)) = bus self \<and>
   bus (snd (SSD1351_draw_text3 g x y string font' self)) = bus self \<and>
   bus (snd (SSD1351_clear_block x0 y0 dx dy self)) = bus self \<and>
   bus (SSD1351_clear_display self) = bus self \<and>
   (\<exists>out. out \<noteq> [] \<and> bus (SSD1351_display self) = bus self @ out) \<and>
   (\<exists>out. out \<noteq> [] \<and> bus (SSD1351_display_cols start_col count self) = bus self @ out) \<and>
   (\<exists>out. out \<noteq> [] \<and> bus (SSD1351_display_block bm row col n off self) = bus self @ out) \<and>
   (\<exists>out. out \<noteq> [] \<and> bus (snd (SSD1351_begin self)) = bus self @ out) \<and>
   (\<exists>out. out \<noteq> [] \<and> bus (SSD1351_reset self) = bus self @ out) \<and>
   (\<exists>out. out \<noteq> [] \<and> bus (SSD1351_invert_display self) = bus self @ out) \<and>
   (\<exists>out. out \<noteq> [] \<and> bus (SSD1351_normal_display self) = bus self @ out)"
proof -
  have silent:
    "bus (snd (SSD1351_draw_pixel x y on self)) = bus self"
    "bus (snd (SSD1351_draw_text x y string self)) = bus self"
    "bus (snd (SSD1351_draw_text2 x y string size' space self)) = bus self"
    "bus (snd (SSD1351_draw_text3 g x y string font' self)) = bus self"
    "bus (snd (SSD1351_clear_block x0 y0 dx dy self)) = bus self"
    "bus (SSD1351_clear_display self) = bus self"
    by (simp_all add: draw_text_bus draw_text2_bus on_bitmap_bus_snd SSD1351_draw_pixel_def
          SSD1351_draw_text3_def SSD1351_clear_block_def SSD1351_clear_display_def)
  have blk: "\<exists>out. out \<noteq> [] \<and> bus (SSD1351_display_block b r c k f self) = bus self @ out"
    for b r c k f
    by (rule exI[of _ "block_traffic (dc_pin self) (platform self) b r c k f"])
       (simp add: display_block_traffic block_traffic_nonempty)
  have loud:
    "\<exists>out. out \<noteq> [] \<and> bus (SSD1351_display self) = bus self @ out"
    "\<exists>out. out \<noteq> [] \<and> bus (SSD1351_display_cols start_col count self) = bus self @ out"
    "\<exists>out. out \<noteq> [] \<and> bus (SSD1351_display_block bm row col n off self) = bus self @ out"
    unfolding SSD1351_display_def SSD1351_display_cols_def by (rule blk)+
  have cmd:
    "\<exists>out. out \<noteq> [] \<and> bus (SSD1351_reset self) = bus self @ out"
    "\<exists>out. out \<noteq> [] \<and> bus (SSD1351_invert_display self) = bus self @ out"
    "\<exists>out. out \<noteq> [] \<and> bus (SSD1351_normal_display self) = bus self @ out"
    by (simp_all add: reset_traffic SSD1351_invert_display_def SSD1351_normal_display_def
          command_traffic)
  from silent loud begin_extends_bus cmd show ?thesis by (intro conjI)
qed

section \<open>Unsupported characters in the two text loops\<close>

lemma for_each_append:
  "for_each body (xs @ ys) s =
     (case for_each body xs s of (None, s') \<Rightarrow> for_each body ys s' | (Some e, s') \<Rightarrow> (Some e, s'))"
  by (induction xs arbitrary: s) (auto split: prod.splits option.splits)

lemma text_width_char_out:
  assumes "out_of_font fnt c"
  shows "text_width_char fnt c (x, Some p, Some w) =
           (None, (x + (space_width fnt + w + gap_width fnt), None, Some w))"
    and "text_width_char fnt c (x, None, pw) = (None, (x, None, pw))"
  using assms by (simp_all add: text_width_char_def)

lemma draw_text_char_out:
  assumes "out_of_font fnt c"
  shows "draw_text_char g fnt y c ((x, Some p, Some w), bm) =
           (None, ((x + (space_width fnt + w + gap_width fnt), None, Some w), bm))"
    and "draw_text_char g fnt y c ((x, None, pw), bm) = (None, ((x, None, pw), bm))"
  using assms by (simp_all add: draw_text_char_def)

lemma text_width_run_none:
  "\<forall>c \<in> set run. out_of_font fnt c \<Longrightarrow>
   for_each (text_width_char fnt) run (x, None, pw) = (None, (x, None, pw))"
  by (induction run) (simp_all add: text_width_char_out)

lemma draw_text_run_none:
  "\<forall>c \<in> set run. out_of_font fnt c \<Longrightarrow>
   for_each (draw_text_char g fnt y) run ((x, None, pw), bm) = (None, ((x, None, pw), bm))"
  by (induction run) (simp_all add: draw_text_char_out)

lemma text_width_run_some:
  assumes "run \<noteq> []" and "\<forall>c \<in> set run. out_of_font fnt c"
  shows "for_each (text_width_char fnt) run (x, Some p, Some w) =
           (None, (x + (space_width fnt + w + gap_width fnt), None, Some w))"
proof -
  obtain c cs where run: "run = c # cs" using assms(1) by (cases run) auto
  then show ?thesis
    using assms(2) text_width_run_none[of cs fnt] by (simp add: text_width_char_out)
qed

lemma draw_text_run_some:
  assumes "run \<noteq> []" and "\<forall>c \<in> set run. out_of_font fnt c"
  shows "for_each (draw_text_char g fnt y) run ((x, Some p, Some w), bm) =
           (None, ((x + (space_width fnt + w + gap_width fnt), None, Some w), bm))"
proof -
  obtain c cs where run: "run = c # cs" using assms(1) by (cases run) auto
  then show ?thesis
    using assms(2) draw_text_run_none[of cs fnt] by (simp add: draw_text_char_out)
qed

lemma text_width_char_fresh:
  assumes "\<not> out_of_font fnt d"
    and "py_getitem (descriptors fnt) (py_ord d - py_ord (start_char fnt)) = Inr (width, offset)"
  shows "text_width_char fnt d (x, None, pw) =
           (None, (x, Some (py_ord d - py_ord (start_char fnt)), Some width))"
  using assms by (simp add: text_width_char_def Let_def)

lemma draw_text_char_fresh:
  assumes "\<not> out_of_font fnt d"
    and "py_getitem (descriptors fnt) (py_ord d - py_ord (start_char fnt)) = Inr (width, offset)"
  shows "draw_text_char g fnt y d ((x, None, pw), bm) =
           (case draw_glyph g fnt x y width offset bm of
              (e, bm') \<Rightarrow> (e, ((x, Some (py_ord d - py_ord (start_char fnt)), Some width), bm')))"
  using assms by (simp add: draw_text_char_def Let_def)

lemma text_width_run_as_one:
  assumes "run \<noteq> []" and "\<forall>c \<in> set run. out_of_font fnt c"
  shows "for_each (text_width_char fnt) run st = for_each (text_width_char fnt) [hd run] st"
proof -
  obtain c cs where run: "run = c # cs" using assms(1) by (cases run) auto
  obtain x pc pw where st: "st = (x, pc, pw)" by (metis prod.exhaust)
  have c: "out_of_font fnt c" and cs: "\<forall>c \<in> set cs. out_of_font fnt c"
    using assms(2) run by auto
  show ?thesis
  proof (cases pc)
    case None
    then show ?thesis
      using run st c text_width_run_none[OF cs] by (simp add: text_width_char_out)
  next
    case (Some p)
    show ?thesis
    proof (cases pw)
      case None
      then show ?thesis using run st Some c by (simp add: text_width_char_def)
    next
      case (Some w)
      then show ?thesis
        using run st \<open>pc = Some p\<close> c text_width_run_none[OF cs]
        by (simp add: text_width_char_out)
    qed
  qed
qed

lemma draw_text_run_as_one:
  assumes "run \<noteq> []" and "\<forall>c \<in> set run. out_of_font fnt c"
  shows "for_each (draw_text_char g fnt y) run st = for_each (draw_text_char g fnt y) [hd run] st"
proof -
  obtain c cs where run: "run = c # cs" using assms(1) by (cases run) auto
  obtain x pc pw bm where st: "st = ((x, pc, pw), bm)" by (metis prod.exhaust)
  have c: "out_of_font fnt c" and cs: "\<forall>c \<in> set cs. out_of_font fnt c"
    using assms(2) run by auto
  show ?thesis
  proof (cases pc)
    case None
    then show ?thesis
      using run st c draw_text_run_none[OF cs] by (simp add: draw_text_char_out)
  next
    case (Some p)
    show ?thesis
    proof (cases pw)
      case None
      then show ?thesis using run st Some c by (simp add: draw_text_char_def)
    next
      case (Some w)
      then show ?thesis
        using run st \<open>pc = Some p\<close> c draw_text_run_none[OF cs]
        by (simp add: draw_text_char_out)
    qed
  qed
qed

lemma text_width_run_collapses:
  assumes "run \<noteq> []" and "\<forall>c \<in> set run. out_of_font fnt c"
  shows "Bitmap_text_width (pre @ run @ post) fnt = Bitmap_text_width (pre @ [hd run] @ post) fnt"
  unfolding Bitmap_text_width_def for_each_append[of _ pre] for_each_append[of _ run]
    for_each_append[of _ "[hd run]"] text_width_run_as_one[OF assms] ..

lemma draw_text_run_collapses:
  assumes "run \<noteq> []" and "\<forall>c \<in> set run. out_of_font fnt c"
  shows "Bitmap_draw_text g x y (pre @ run @ post) fnt bm =
         Bitmap_draw_text g x y (pre @ [hd run] @ post) fnt bm"
  unfolding Bitmap_draw_text_def for_each_append[of _ pre] for_each_append[of _ run]
    for_each_append[of _ "[hd run]"] draw_text_run_as_one[OF assms] ..

text \<open>
  C6. In both loops a non-empty run of characters outside \<open>[start_char, end_char]\<close>
  moves the cursor by \<open>space_width + prev_width + gap_width\<close> once, whatever the length
  of the run, when a previous glyph is recorded, and not at all otherwise; it leaves
  \<open>prev_char = None\<close>, so that an in-range character \<open>d\<close> after the run is placed at
  that cursor with no kerning and no gap added. In \<open>draw_text\<close> the run leaves the
  bitmap as it was and the glyph of \<open>d\<close> is drawn at the same cursor. For the two
  methods as a whole: anywhere in a string, the run can be cut down to its first
  character without changing what \<open>text_width\<close> or \<open>draw_text\<close> does.
\<close>

theorem unsupported_run_flushes_once:
  assumes "run \<noteq> []" and "\<forall>c \<in> set run. out_of_font fnt c"
    and "\<not> out_of_font fnt d"
    and "py_getitem (descriptors fnt) (py_ord d - py_ord (start_char fnt)) = Inr (width, offset)"
  shows
    "for_each (text_width_char fnt) run (x, Some p, Some w) =
       (None, (x + (space_width fnt + w + gap_width fnt), None, Some w)) \<and>
     for_each (text_width_char fnt) run (x, None, pw) = (None, (x, None, pw)) \<and>
     for_each (text_width_char fnt) (run @ [d]) (x, Some p, Some w) =
       (None, (x + (space_width fnt + w + gap_width fnt),
               Some (py_ord d - py_ord (start_char fnt)), Some width)) \<and>
     for_each (draw_text_char g fnt y) run ((x, Some p, Some w), bm) =
       (None, ((x + (space_width fnt + w + gap_width fnt), None, Some w), bm)) \<and>
     for_each (draw_text_char g fnt y) run ((x, None, pw), bm) = (None, ((x, None, pw), bm)) \<and>
     for_each (draw_text_char g fnt y) (run @ [d]) ((x, Some p, Some w), bm) =
       (case draw_glyph g fnt (x + (space_width fnt + w + gap_width fnt)) y width offset bm of
          (e, bm') \<Rightarrow>
            (e, ((x + (space_width fnt + w + gap_width fnt),
                  Some (py_ord d - py_ord (start_char fnt)), Some width), bm'))) \<and>
     Bitmap_text_width (pre @ run @ post) fnt = Bitmap_text_width (pre @ [hd run] @ post) fnt \<and>
     Bitmap_draw_text g x y (pre @ run @ post) fnt bm =
       Bitmap_draw_text g x y (pre @ [hd run] @ post) fnt bm"
proof -
  note tw = text_width_run_some[OF assms(1,2)]
  note dt = draw_text_run_some[OF assms(1,2)]
  have a: "for_each (text_width_char fnt) (run @ [d]) (x, Some p, Some w) =
       (None, (x + (space_width fnt + w + gap_width fnt),
               Some (py_ord d - py_ord (start_char fnt)), Some width))"
    by (simp add: for_each_append tw text_width_char_fresh[OF assms(3,4)])
  have b: "for_each (draw_text_char g fnt y) (run @ [d]) ((x, Some p, Some w), bm) =
       (case draw_glyph g fnt (x + (space_width fnt + w + gap_width fnt)) y width offset bm of
          (e, bm') \<Rightarrow>
            (e, ((x + (space_width fnt + w + gap_width fnt),
                  Some (py_ord d - py_ord (start_char fnt)), Some width), bm')))"
    by (simp add: for_each_append dt draw_text_char_fresh[OF assms(3,4)]
             split: prod.splits option.splits)
  show ?thesis
    using tw text_width_run_none[OF assms(2)] a dt draw_text_run_none[OF assms(2)] b
      text_width_run_collapses[OF assms(1,2)] draw_text_run_collapses[OF assms(1,2)]
    by (intro conjI)
qed


theorem unsupported_run_flushes_once_witness:
  "for_each (text_width_char font_AB) ''  '' (5, Some 0, Some 2) = (None, (11, None, Some 2)) \<and>
   for_each (text_width_char font_AB) ''  '' (5, None, None) = (None, (5, None, None)) \<and>
   for_each (text_width_char font_AB) ''  B'' (5, Some 0, Some 2) = (None, (11, Some 1, Some 3)) \<and>
   for_each (draw_text_char module_BITS_PER_PIXEL font_AB 0) ''  '' ((5, Some 0, Some 2), blank_8x16) =
     (None, ((11, None, Some 2), blank_8x16)) \<and>
   for_each (draw_text_char module_BITS_PER_PIXEL font_AB 0) ''  '' ((5, None, None), blank_8x16) =
     (None, ((5, None, None), blank_8x16)) \<and>
   for_each (draw_text_char module_BITS_PER_PIXEL font_AB 0) ''  B'' ((5, Some 0, Some 2), blank_8x16) =
     (Some NameError, ((11, Some 1, Some 3), blank_8x16)) \<and>
   Bitmap_text_width ''A  B'' font_AB = Inr 9 \<and>
   Bitmap_text_width ''A B'' font_AB = Inr 9"
proof -
  have one: "Bitmap_text_width ''A B'' font_AB = Inr 9" by code_simp
  have h1: "''  '' \<noteq> []" by simp
  have h2: "\<forall>c \<in> set ''  ''. out_of_font font_AB c"
    by (simp add: out_of_font_def font_AB_def py_ord_def)
  have h3: "\<not> out_of_font font_AB CHR ''B''"
    by (simp add: out_of_font_def font_AB_def py_ord_def)
  have h4: "py_getitem (descriptors font_AB) (py_ord CHR ''B'' - py_ord (start_char font_AB)) = Inr (3, 2)"
    by (simp add: py_getitem_def py_index_def font_AB_def py_ord_def)
  have g: "draw_glyph module_BITS_PER_PIXEL font_AB x y w off bm = (Some NameError, bm)" for x y w off bm
    by (simp add: draw_glyph_def module_BITS_PER_PIXEL_def)
  have v: "space_width font_AB = 3" "gap_width font_AB = 1"
          "py_ord CHR ''B'' - py_ord (start_char font_AB) = 1"
    by (simp_all add: font_AB_def py_ord_def)
  show ?thesis
    using unsupported_run_flushes_once [OF h1 h2 h3 h4, of 5 0 2 None module_BITS_PER_PIXEL 0 blank_8x16
            "''A''" "''B''"]
    by (simp add: g v one)
qed

section \<open>\<open>draw_text\<close> against \<open>text_width\<close>\<close>

text \<open>
  Whenever \<open>draw_text\<close> does return, the locals it reached are those of \<open>text_width\<close>,
  so its cursor from \<open>x = 0\<close> is the measured width.
\<close>

lemma draw_text_char_locals:
  assumes "draw_text_char g fnt y c (loc, bm) = (None, (loc', bm'))"
  shows "text_width_char fnt c loc = (None, loc')"
proof -
  obtain x pc pw where loc: "loc = (x, pc, pw)" by (metis prod.exhaust)
  show ?thesis
  proof (cases "out_of_font fnt c")
    case True
    then show ?thesis
      using assms loc
      by (auto simp: draw_text_char_def text_width_char_def split: option.splits)
  next
    case False
    then show ?thesis
      using assms loc
      by (auto simp: draw_text_char_def text_width_char_def Let_def
               split: option.splits sum.splits prod.splits)
  qed
qed

lemma draw_text_loop_locals:
  "for_each (draw_text_char g fnt y) s (loc, bm) = (None, (loc', bm')) \<Longrightarrow>
   for_each (text_width_char fnt) s loc = (None, loc')"
proof (induction s arbitrary: loc bm)
  case Nil
  then show ?case by simp
next
  case (Cons c s)
  obtain e1 loc1 bm1 where st: "draw_text_char g fnt y c (loc, bm) = (e1, (loc1, bm1))"
    by (metis prod.exhaust)
  have e1: "e1 = None"
    using Cons.prems st by (cases e1) auto
  have "text_width_char fnt c loc = (None, loc1)"
    using st e1 by (auto dest: draw_text_char_locals)
  moreover have "for_each (text_width_char fnt) s loc1 = (None, loc')"
    using Cons.prems st e1 by (auto intro: Cons.IH)
  ultimately show ?case by simp
qed

lemma draw_text_cursor_is_text_width:
  assumes "Bitmap_draw_text g 0 y s fnt bm = (Inr x', bm')"
  shows "Bitmap_text_width s fnt = Inr x'"
proof -
  obtain e loc bm1 where l: "for_each (draw_text_char g fnt y) s ((0, None, None), bm) = (e, (loc, bm1))"
    by (metis prod.exhaust)
  have e: "e = None" and fc: "final_cursor loc = Inr x'"
    using assms l by (auto simp: Bitmap_draw_text_def split: option.splits)
  have "for_each (text_width_char fnt) s (0, None, None) = (None, loc)"
    using l e by (auto dest: draw_text_loop_locals)
  then show ?thesis using fc by (simp add: Bitmap_text_width_def)
qed

text \<open>
  \<open>prev_width\<close> is bound whenever \<open>prev_char\<close> is not \<open>None\<close>, so
  \<open>text_width\<close> never reads it unbound.
\<close>

lemma text_width_char_bound:
  assumes "text_width_char fnt c (x, pc, pw) = (e, (x', pc', pw'))" and "pc \<noteq> None \<longrightarrow> pw \<noteq> None"
  shows "(pc' \<noteq> None \<longrightarrow> pw' \<noteq> None) \<and> e \<noteq> Some UnboundLocalError"
  using assms
  by (auto simp: text_width_char_def Let_def py_getitem_def
           split: if_splits option.splits sum.splits prod.splits)

lemma text_width_loop_bound:
  "for_each (text_width_char fnt) s (x, pc, pw) = (e, (x', pc', pw')) \<Longrightarrow>
   pc \<noteq> None \<longrightarrow> pw \<noteq> None \<Longrightarrow>
   (pc' \<noteq> None \<longrightarrow> pw' \<noteq> None) \<and> e \<noteq> Some UnboundLocalError"
proof (induction s arbitrary: x pc pw)
  case Nil
  then show ?case by auto
next
  case (Cons c s)
  obtain e1 x1 pc1 pw1 where st: "text_width_char fnt c (x, pc, pw) = (e1, (x1, pc1, pw1))"
    by (metis prod.exhaust)
  note b = text_width_char_bound[OF st Cons.prems(2)]
  show ?case
  proof (cases e1)
    case None
    then have "for_each (text_width_char fnt) s (x1, pc1, pw1) = (e, (x', pc', pw'))"
      using Cons.prems(1) st by simp
    then show ?thesis using Cons.IH b by blast
  next
    case (Some err)
    then show ?thesis using Cons.prems(1) st b by auto
  qed
qed

lemma text_width_never_unbound: "Bitmap_text_width s fnt \<noteq> Inl UnboundLocalError"
proof -
  obtain e x pc pw where l: "for_each (text_width_char fnt) s (0, None, None) = (e, (x, pc, pw))"
    by (metis prod.exhaust)
  have "(pc \<noteq> None \<longrightarrow> pw \<noteq> None) \<and> e \<noteq> Some UnboundLocalError"
    by (rule text_width_loop_bound[OF l]) simp
  then show ?thesis
    using l by (auto simp: Bitmap_text_width_def final_cursor_def split: option.splits)
qed

text \<open>
  With the name bound to 16 and a font whose bitmaps are long enough for the stride the
  code uses, \<open>draw_text\<close> returns and the two cursors agree.
\<close>

lemma draw_text_returns_example:
  "fst (Bitmap_draw_text (Some 16) 0 0 ''A  B'' (font_AB\<lparr>bitmaps := replicate 64 0xC0\<rparr>) blank_8x16) = Inr 9 \<and>
   Bitmap_text_width ''A  B'' (font_AB\<lparr>bitmaps := replicate 64 0xC0\<rparr>) = Inr 9"
  by code_simp

text \<open>
  C2 fails on the code. For the one-character string \<open>A\<close> and the font \<open>font_AB\<close>,
  \<open>text_width\<close> returns 2, while \<open>draw_text(0, 0, ...)\<close> returns no cursor: with the
  module as it is, \<open>BITS_PER_PIXEL\<close> is unbound and the call raises \<open>NameError\<close>; were
  the name bound to the class attribute's 16, the row stride \<open>(width + 7) * 2\<close> would
  step outside the font's bitmaps and raise \<open>IndexError\<close>.
\<close>

theorem draw_text_raises_where_text_width_returns:
  "Bitmap_text_width ''A'' font_AB = Inr 2 \<and>
   fst (Bitmap_draw_text module_BITS_PER_PIXEL 0 0 ''A'' font_AB blank_8x16) = Inl NameError \<and>
   fst (Bitmap_draw_text (Some 16) 0 0 ''A'' font_AB blank_8x16) = Inl IndexError"
  by code_simp

end
